theory Spec2Isabelle
  imports Complex_Main "HOL-Library.Multiset" "HOL-Library.Product_Lexorder"
begin

section \<open>JavaScript values used by the bridge code\<close>

text \<open>
  A JavaScript \<^verbatim>\<open>number\<close> is modelled by its mathematical value: a rational, the two
  infinities, or NaN. Rounding of IEEE doubles is not tracked, so every statement below is
  about numbers small enough to be exact (amounts and times far below \<open>2^53\<close>).
\<close>

datatype jsnum = Num rat | PosInfinity | NegInfinity | NaN

text \<open>The binary \<^verbatim>\<open>-\<close> of JavaScript on numbers.\<close>

fun js_sub :: "jsnum \<Rightarrow> jsnum \<Rightarrow> jsnum" where
  "js_sub NaN _ = NaN"
| "js_sub _ NaN = NaN"
| "js_sub (Num a) (Num b) = Num (a - b)"
| "js_sub (Num a) PosInfinity = NegInfinity"
| "js_sub (Num a) NegInfinity = PosInfinity"
| "js_sub PosInfinity PosInfinity = NaN"
| "js_sub PosInfinity _ = PosInfinity"
| "js_sub NegInfinity NegInfinity = NaN"
| "js_sub NegInfinity _ = NegInfinity"

text \<open>\<^verbatim>\<open>v > 0\<close> and \<^verbatim>\<open>v < 0\<close>; both are false at NaN.\<close>

fun js_pos :: "jsnum \<Rightarrow> bool" where
  "js_pos (Num a) = (0 < a)"
| "js_pos PosInfinity = True"
| "js_pos NegInfinity = False"
| "js_pos NaN = False"

fun js_neg :: "jsnum \<Rightarrow> bool" where
  "js_neg (Num a) = (a < 0)"
| "js_neg PosInfinity = False"
| "js_neg NegInfinity = True"
| "js_neg NaN = False"

text \<open>\<^verbatim>\<open>a <= b\<close> on numbers; false as soon as one side is NaN.\<close>

fun js_le :: "jsnum \<Rightarrow> jsnum \<Rightarrow> bool" where
  "js_le NaN _ = False"
| "js_le _ NaN = False"
| "js_le NegInfinity _ = True"
| "js_le _ PosInfinity = True"
| "js_le (Num a) (Num b) = (a \<le> b)"
| "js_le (Num a) NegInfinity = False"
| "js_le PosInfinity _ = False"

text \<open>
  The position of a number on the extended line, as a pair ordered lexicographically.
  It is only used in proofs, to connect the comparator with a linear order.
\<close>

fun rank :: "jsnum \<Rightarrow> int \<times> rat" where
  "rank NegInfinity = (-1, 0)"
| "rank (Num a) = (0, a)"
| "rank PosInfinity = (1, 0)"
| "rank NaN = (2, 0)"

subsection \<open>Numbers to strings\<close>

text \<open>
  \<^verbatim>\<open>String(n)\<close> for an integer-valued number, as a template literal \<^verbatim>\<open>`${n}`\<close> does it:
  the decimal digits, with a leading minus sign for a negative value.
\<close>

definition digit_char :: "nat \<Rightarrow> char" where
  "digit_char d = ''0123456789'' ! d"

function show_nat :: "nat \<Rightarrow> string" where
  "show_nat n = (if n < 10 then [digit_char n] else show_nat (n div 10) @ [digit_char (n mod 10)])"
  by pat_completeness auto
termination
  by (relation "measure id") auto

declare show_nat.simps [simp del]

definition show_int :: "int \<Rightarrow> string" where
  "show_int i = (if i < 0 then CHR ''-'' # show_nat (nat (- i)) else show_nat (nat i))"

subsection \<open>Optional strings and the operator \<^verbatim>\<open>||\<close>\<close>

text \<open>
  A string-valued property that may be \<^verbatim>\<open>undefined\<close> is a \<open>string option\<close>. \<^verbatim>\<open>a || b\<close>
  yields \<open>b\<close> when \<open>a\<close> is falsy: \<^verbatim>\<open>undefined\<close> or the empty string.
\<close>

definition js_or :: "string option \<Rightarrow> string option \<Rightarrow> string option" where
  "js_or a b = (case a of None \<Rightarrow> b | Some s \<Rightarrow> if s = [] then b else Some s)"

definition js_or_default :: "string option \<Rightarrow> string \<Rightarrow> string" where
  "js_or_default a d = (case a of None \<Rightarrow> d | Some s \<Rightarrow> if s = [] then d else s)"

section \<open>Errors: \<^verbatim>\<open>core/errors.ts\<close>\<close>

text \<open>
  A thrown error value: its \<^verbatim>\<open>name\<close>, its \<^verbatim>\<open>message\<close> and, for the \<^verbatim>\<open>WormholeError\<close>
  classes, its \<^verbatim>\<open>code\<close>. \<^verbatim>\<open>new Error(msg)\<close> has the name \<^verbatim>\<open>Error\<close> and no code.
\<close>

record js_error =
  err_name :: string
  message :: string
  code :: "string option"

definition Error :: "string \<Rightarrow> js_error" where
  "Error msg = \<lparr>err_name = ''Error'', message = msg, code = None\<rparr>"

definition QuoteFailedError :: "string \<Rightarrow> js_error" where
  "QuoteFailedError reason =
     \<lparr>err_name = ''QuoteFailedError'', message = ''Failed to get quote: '' @ reason,
      code = Some ''QUOTE_FAILED''\<rparr>"

definition TransferFailedError :: "string \<Rightarrow> js_error" where
  "TransferFailedError reason =
     \<lparr>err_name = ''TransferFailedError'', message = ''Transfer failed: '' @ reason,
      code = Some ''TRANSFER_FAILED''\<rparr>"

section \<open>Signer adapter: \<^verbatim>\<open>viem-ethers-adapter.ts\<close>\<close>

text \<open>
  The transaction the protocol library hands to the signer, with the fields the adapter
  reads. Numeric fields hold \<^verbatim>\<open>bigint\<close> values, on which \<^verbatim>\<open>BigInt(...)\<close> is the identity.
\<close>

record transaction =
  tx_to :: string
  tx_data :: string
  tx_value :: "int option"
  tx_gasLimit :: "int option"
  tx_maxFeePerGas :: "int option"
  tx_maxPriorityFeePerGas :: "int option"
  tx_nonce :: "int option"

text \<open>The argument of \<^verbatim>\<open>walletClient.sendTransaction\<close> (account and chain are fixed).\<close>

record send_request =
  req_to :: string
  req_data :: string
  req_value :: "int option"
  req_gas :: "int option"
  req_maxFeePerGas :: "int option"
  req_maxPriorityFeePerGas :: "int option"
  req_nonce :: "int option"

text \<open>\<^verbatim>\<open>x ? BigInt(x) : undefined\<close>: an absent or zero field becomes \<^verbatim>\<open>undefined\<close>.\<close>

definition bigint_if_truthy :: "int option \<Rightarrow> int option" where
  "bigint_if_truthy x = (case x of None \<Rightarrow> None | Some n \<Rightarrow> if n = 0 then None else Some n)"

definition to_request :: "transaction \<Rightarrow> send_request" where
  "to_request t =
     \<lparr>req_to = tx_to t, req_data = tx_data t,
      req_value = bigint_if_truthy (tx_value t),
      req_gas = bigint_if_truthy (tx_gasLimit t),
      req_maxFeePerGas = bigint_if_truthy (tx_maxFeePerGas t),
      req_maxPriorityFeePerGas = bigint_if_truthy (tx_maxPriorityFeePerGas t),
      req_nonce = tx_nonce t\<rparr>"

text \<open>
  Every call that leaves the program is recorded, in order, in a trace of events: calls to
  the wallet and the chain client, and calls into the protocol library. An \<^verbatim>\<open>await\<close>
  finishes the call before the next statement runs, so the order of the trace is the
  order in time.
\<close>

datatype event =
    WalletSendTransaction send_request
  | WaitForTransactionReceipt string
  | WalletSignTransaction transaction
  | InitWormhole
  | CreateResolver "string list"
  | GetChain string
  | TokenId string string
  | SupportedDestinationTokens
  | ParseAddress string string
  | CreateTransferRequest
  | FindRoutes
  | RouteValidate string
  | RouteQuote string
  | RouteInitiate string
  | LogExtractedTxHash "string option"

text \<open>
  The wallet and the chain client are outside the program. Each answers a call with a
  result or a thrown error, and the answer may depend on everything that happened before.
  (A call that never settles is not modelled: what is proved is about runs in which
  every awaited call comes back.)
\<close>

record 'rc wallet =
  wallet_sendTransaction :: "event list \<Rightarrow> send_request \<Rightarrow> js_error + string"
  waitForTransactionReceipt :: "event list \<Rightarrow> string \<Rightarrow> js_error + 'rc"

record 'rc tx_response =
  hash :: string
  wait :: 'rc

text \<open>
  \<^verbatim>\<open>sendTransaction\<close> of the adapter: send through the wallet, wait for the receipt,
  return the hash with the receipt. The result is paired with the extended trace.
\<close>

definition sendTransaction ::
  "'rc wallet \<Rightarrow> event list \<Rightarrow> transaction \<Rightarrow> (js_error + 'rc tx_response) \<times> event list" where
  "sendTransaction walletClient tr t =
     (let tr1 = tr @ [WalletSendTransaction (to_request t)] in
      case wallet_sendTransaction walletClient tr (to_request t) of
        Inl e \<Rightarrow> (Inl e, tr1)
      | Inr h \<Rightarrow>
          (let tr2 = tr1 @ [WaitForTransactionReceipt h] in
           case waitForTransactionReceipt walletClient tr1 h of
             Inl e \<Rightarrow> (Inl e, tr2)
           | Inr receipt \<Rightarrow> (Inr \<lparr>hash = h, wait = receipt\<rparr>, tr2)))"

text \<open>\<^verbatim>\<open>signTransaction\<close> of the adapter: logs and throws, whatever the transaction.\<close>

definition signTransaction ::
  "'rc wallet \<Rightarrow> event list \<Rightarrow> transaction \<Rightarrow> (js_error + string) \<times> event list" where
  "signTransaction walletClient tr t =
     (Inl (Error ''signTransaction not supported - the SDK should use sendTransaction instead''), tr)"

section \<open>Orchestration: \<^verbatim>\<open>wormhole.ts\<close>\<close>

subsection \<open>ViemWormholeSigner\<close>

record unsigned_tx =
  transaction :: transaction
  tx_description :: string

record 'rc ViemWormholeSigner =
  chainName :: string
  walletAddress :: string
  ethersSigner :: "'rc wallet"

text \<open>
  \<^verbatim>\<open>
  const txids = [];
  for (const txn of txns) {
    const { transaction, description } = txn;
    const response = await this.ethersSigner.sendTransaction(transaction);
    txids.push(response.hash);
  }
  return txids;
  \<close>
  The loop, with the list \<^verbatim>\<open>txids\<close> built so far as an argument. A thrown error leaves the
  loop at once.
\<close>

fun signAndSend_loop ::
  "'rc ViemWormholeSigner \<Rightarrow> event list \<Rightarrow> unsigned_tx list \<Rightarrow> string list
     \<Rightarrow> (js_error + string list) \<times> event list" where
  "signAndSend_loop signer tr [] txids = (Inr txids, tr)"
| "signAndSend_loop signer tr (txn # txns) txids =
     (case sendTransaction (ethersSigner signer) tr (transaction txn) of
        (Inl e, tr') \<Rightarrow> (Inl e, tr')
      | (Inr response, tr') \<Rightarrow> signAndSend_loop signer tr' txns (txids @ [hash response]))"

definition signAndSend ::
  "'rc ViemWormholeSigner \<Rightarrow> event list \<Rightarrow> unsigned_tx list
     \<Rightarrow> (js_error + string list) \<times> event list" where
  "signAndSend signer tr txns = signAndSend_loop signer tr txns []"

subsection \<open>Protocol objects\<close>

record chain_context =
  chain :: string

record token_id =
  token_chain :: string
  token_address :: string

record transfer_request =
  source :: token_id
  destination :: token_id
  sender :: "string option"
  receiver :: "string option"

record transfer_params =
  tp_amount :: string
  nativeGas :: nat

record validation_result =
  valid :: bool
  params :: transfer_params
  validation_error :: "string option"

record chain_address =
  ca_chain :: string
  ca_address :: "string option"

record transaction_reference =
  ref_chain :: string
  txid :: "string option"

text \<open>
  The receipt of \<^verbatim>\<open>route.initiate\<close>. Its shape varies by route, so every property the
  code reads is optional: \<^verbatim>\<open>originTxs\<close>, \<^verbatim>\<open>txid\<close> and \<^verbatim>\<open>hash\<close>.
\<close>

record receipt =
  originTxs :: "transaction_reference list option"
  receipt_txid :: "string option"
  receipt_hash :: "string option"

text \<open>
  The part of a quote that \<^verbatim>\<open>formatRoutes\<close> and \<^verbatim>\<open>initiateTransfer\<close> read.
  \<^verbatim>\<open>relayFee\<close> is \<^verbatim>\<open>{ token: { symbol? }, amount: { amount, decimals } }\<close>; the inner
  \<^verbatim>\<open>amount\<close> is the decimal string of an integer number of base units, which
  \<^verbatim>\<open>parseFloat\<close> turns into that integer. Absent fields (\<^verbatim>\<open>undefined\<close>) are \<open>None\<close>.
\<close>

record relay_fee =
  amount :: int
  decimals :: nat
  symbol :: "string option"

record quote =
  success :: bool
  quote_error :: "string option"
  relayFee :: "relay_fee option"
  eta :: "rat option"
  destinationChain :: string

text \<open>
  A route object: the name of its class (\<^verbatim>\<open>route.constructor.name\<close>) and its three
  operations. They are network calls into the protocol library, so each is a function of
  the trace so far and may throw. \<^verbatim>\<open>initiate\<close> drives the signer; it returns its result
  (the receipt may be \<^verbatim>\<open>null\<close>) with the events it caused.
\<close>

record 'rc route =
  constructor_name :: string
  validate :: "event list \<Rightarrow> transfer_request \<Rightarrow> transfer_params \<Rightarrow> js_error + validation_result"
  route_quote :: "event list \<Rightarrow> transfer_request \<Rightarrow> transfer_params \<Rightarrow> js_error + quote"
  initiate :: "event list \<Rightarrow> transfer_request \<Rightarrow> 'rc ViemWormholeSigner \<Rightarrow> quote \<Rightarrow> chain_address
                 \<Rightarrow> (js_error + receipt option) \<times> event list"

text \<open>
  The protocol library as \<^verbatim>\<open>getTransferQuote\<close> uses it: \<^verbatim>\<open>wormhole(...)\<close>,
  \<^verbatim>\<open>wh.getChain\<close>, \<^verbatim>\<open>Wormhole.tokenId\<close>, \<^verbatim>\<open>resolver.supportedDestinationTokens\<close> (whose
  result may be \<^verbatim>\<open>undefined\<close>), \<^verbatim>\<open>Wormhole.parseAddress\<close>,
  \<^verbatim>\<open>RouteTransferRequest.create\<close> and \<^verbatim>\<open>resolver.findRoutes\<close>.
\<close>

record 'rc protocol =
  initWormhole :: "event list \<Rightarrow> js_error + unit"
  getChain :: "string \<Rightarrow> js_error + chain_context"
  tokenId :: "string \<Rightarrow> string \<Rightarrow> js_error + token_id"
  supportedDestinationTokens ::
    "event list \<Rightarrow> token_id \<Rightarrow> chain_context \<Rightarrow> chain_context \<Rightarrow> js_error + token_id list option"
  parseAddress :: "string \<Rightarrow> string \<Rightarrow> js_error + string"
  createTransferRequest :: "event list \<Rightarrow> token_id \<Rightarrow> token_id \<Rightarrow> js_error + transfer_request"
  findRoutes :: "event list \<Rightarrow> transfer_request \<Rightarrow> js_error + 'rc route list option"

subsection \<open>getTransferQuote\<close>

record quote_params =
  sourceChain :: string
  destChain :: string
  tokenAddress :: string
  qp_amount :: string
  sourceAddress :: string
  destAddress :: string

record 'rc transfer_quote =
  tq_route :: "'rc route"
  tq_transferRequest :: transfer_request
  tq_allRoutes :: "'rc route list"

text \<open>The route classes given to \<^verbatim>\<open>wh.resolver\<close>, in priority order.\<close>

definition resolver_routes :: "string list" where
  "resolver_routes =
     [''AutomaticCCTPRoute'', ''CCTPRoute'', ''AutomaticTokenBridgeRoute'', ''TokenBridgeRoute'']"

text \<open>
  A call that leaves the program, inside a \<^verbatim>\<open>try/catch\<close> that logs and rethrows: the
  events of the call are recorded; a thrown error ends the function with that error;
  otherwise the rest of the function runs with the result.
\<close>

definition call ::
  "event list \<Rightarrow> event list \<Rightarrow> js_error + 'a
     \<Rightarrow> (event list \<Rightarrow> 'a \<Rightarrow> (js_error + 'b) \<times> event list) \<Rightarrow> (js_error + 'b) \<times> event list" where
  "call tr evs result continue =
     (case result of Inl e \<Rightarrow> (Inl e, tr @ evs) | Inr x \<Rightarrow> continue (tr @ evs) x)"

text \<open>
  \<^verbatim>\<open>getTransferQuote\<close>, statement by statement: initialise the library, create the
  resolver, look up both chains, build the token id, ask for the destination tokens,
  parse both addresses, create the transfer request, find the routes. The two explicit
  \<^verbatim>\<open>throw new Error(...)\<close> are the empty set of destination tokens and the empty list
  of routes.
\<close>

definition getTransferQuote ::
  "'rc protocol \<Rightarrow> event list \<Rightarrow> quote_params \<Rightarrow> (js_error + 'rc transfer_quote) \<times> event list" where
  "getTransferQuote sdk tr ps =
     call tr [InitWormhole] (initWormhole sdk tr) (\<lambda>tr1 wh.
     call tr1 [CreateResolver resolver_routes, GetChain (sourceChain ps)]
       (getChain sdk (sourceChain ps)) (\<lambda>tr2 srcChain.
     call tr2 [GetChain (destChain ps)] (getChain sdk (destChain ps)) (\<lambda>tr3 dstChain.
     let isNative = (tokenAddress ps = ''0xEeeeeEeeeEeEeeEeEeEeeEEEeeeeEeeeeeeeEEeE'');
         tok = (if isNative then ''native'' else tokenAddress ps)
     in
     call tr3 [TokenId (chain srcChain) tok] (tokenId sdk (chain srcChain) tok) (\<lambda>tr4 tid.
     call tr4 [SupportedDestinationTokens]
       (supportedDestinationTokens sdk tr4 tid srcChain dstChain) (\<lambda>tr5 destTokens.
     case destTokens of
       None \<Rightarrow> (Inl (Error ''No supported destination tokens found''), tr5)
     | Some [] \<Rightarrow> (Inl (Error ''No supported destination tokens found''), tr5)
     | Some (destToken # _) \<Rightarrow>
     call tr5 [ParseAddress (chain srcChain) (sourceAddress ps)]
       (parseAddress sdk (chain srcChain) (sourceAddress ps)) (\<lambda>tr6 senderAddr.
     call tr6 [ParseAddress (chain dstChain) (destAddress ps)]
       (parseAddress sdk (chain dstChain) (destAddress ps)) (\<lambda>tr7 receiverAddr.
     call tr7 [CreateTransferRequest] (createTransferRequest sdk tr7 tid destToken) (\<lambda>tr8 created.
     let transferRequest = created\<lparr>sender := Some senderAddr, receiver := Some receiverAddr\<rparr>
     in
     call tr8 [FindRoutes] (findRoutes sdk tr8 transferRequest) (\<lambda>tr9 foundRoutes.
     case foundRoutes of
       None \<Rightarrow> (Inl (Error ''No routes found for this transfer''), tr9)
     | Some [] \<Rightarrow> (Inl (Error ''No routes found for this transfer''), tr9)
     | Some (r # rs) \<Rightarrow>
         (Inr \<lparr>tq_route = r, tq_transferRequest = transferRequest, tq_allRoutes = r # rs\<rparr>,
          tr9))))))))))"

subsection \<open>The transaction hash of a receipt\<close>

text \<open>
  \<^verbatim>\<open>receipt?.originTxs?.[0]?.txid || receipt?.txid || receipt?.hash\<close>, the expression of
  \<^verbatim>\<open>initiateTransfer\<close> (wormhole.ts, line 314).
\<close>

definition first_origin_txid :: "receipt option \<Rightarrow> string option" where
  "first_origin_txid r =
     (case r of
        None \<Rightarrow> None
      | Some rc \<Rightarrow> (case originTxs rc of None \<Rightarrow> None | Some [] \<Rightarrow> None | Some (t # _) \<Rightarrow> txid t))"

definition extractTxHash :: "receipt option \<Rightarrow> string option" where
  "extractTxHash r =
     js_or (js_or (first_origin_txid r) (Option.bind r receipt_txid)) (Option.bind r receipt_hash)"

subsection \<open>initiateTransfer\<close>

text \<open>
  \<^verbatim>\<open>initiateTransfer\<close>: validate, quote, initiate, then extract and log the transaction
  hash and return the receipt. The route operations are recorded in the trace when they
  are called; \<^verbatim>\<open>wh\<close> and \<^verbatim>\<open>destAddress\<close> are passed in and not used.
\<close>

definition initiateTransfer ::
  "event list \<Rightarrow> 'rc route \<Rightarrow> transfer_request \<Rightarrow> 'rc ViemWormholeSigner \<Rightarrow> string \<Rightarrow> string
     \<Rightarrow> (js_error + receipt option) \<times> event list" where
  "initiateTransfer tr route transferRequest signer destAddr amt =
     (let transferParams = \<lparr>tp_amount = amt, nativeGas = 0\<rparr>;
          tr1 = tr @ [RouteValidate (constructor_name route)] in
      case validate route tr transferRequest transferParams of
        Inl e \<Rightarrow> (Inl e, tr1)
      | Inr validated \<Rightarrow>
          if \<not> valid validated
          then (Inl (Error (js_or_default (validation_error validated) ''Transfer validation failed'')), tr1)
          else
     (let tr2 = tr1 @ [RouteQuote (constructor_name route)] in
      case route_quote route tr1 transferRequest (params validated) of
        Inl e \<Rightarrow> (Inl e, tr2)
      | Inr q \<Rightarrow>
          if \<not> success q
          then (Inl (Error (js_or_default (quote_error q) ''Failed to get quote'')), tr2)
          else
     (let receiverChainAddress =
            \<lparr>ca_chain = destinationChain q, ca_address = receiver transferRequest\<rparr>;
          tr3 = tr2 @ [RouteInitiate (constructor_name route)] in
      case initiate route tr2 transferRequest signer q receiverChainAddress of
        (Inl e, evs) \<Rightarrow> (Inl e, tr3 @ evs)
      | (Inr rcpt, evs) \<Rightarrow>
          (let txHash = extractTxHash rcpt
           in (Inr rcpt, tr3 @ evs @ [LogExtractedTxHash txHash])))))"

section \<open>Components: the hash shown after a transfer\<close>

text \<open>
  \<^verbatim>\<open>handleConfirmTransfer\<close> of Bridge.tsx (line 232) repeats the expression of
  \<^verbatim>\<open>initiateTransfer\<close> with the default \<^verbatim>\<open>'unknown'\<close>, and builds the scanner link from it.
\<close>

definition handleConfirmTransfer_txHash :: "receipt option \<Rightarrow> string" where
  "handleConfirmTransfer_txHash r = js_or_default (extractTxHash r) ''unknown''"

definition wormholeUrl :: "string \<Rightarrow> string" where
  "wormholeUrl txHash = ''https://wormholescan.io/#/tx/'' @ txHash @ ''?network=Mainnet''"

text \<open>
  The bridge component with route selection does it differently:
  \<^verbatim>\<open>
  // For routes with approval (like CCTP), the actual bridge tx is the last item
  // For manual routes without approval, there's only one transaction
  const originTxs = receipt?.originTxs || [];
  const txHash = originTxs.length > 0
    ? originTxs[originTxs.length - 1]?.txid
    : (receipt?.txid || receipt?.hash || 'unknown');
  \<close>
\<close>

definition handleConfirmTransfer_routes_txHash :: "receipt option \<Rightarrow> string option" where
  "handleConfirmTransfer_routes_txHash r =
     (let txs = (case Option.bind r originTxs of None \<Rightarrow> [] | Some l \<Rightarrow> l)
      in if length txs > 0 then txid (txs ! (length txs - 1))
         else Some (js_or_default
                      (js_or (Option.bind r receipt_txid) (Option.bind r receipt_hash)) ''unknown''))"

section \<open>Route presenter: \<^verbatim>\<open>route-helpers.ts\<close>\<close>

subsection \<open>Route options\<close>

text \<open>\<^verbatim>\<open>export interface RouteOption\<close> of the route selector.\<close>

record RouteOption =
  type :: string
  name :: string
  description :: string
  fee :: string
  feeAmount :: jsnum
  estimatedTime :: string
  isAutomatic :: bool

subsection \<open>toFixed\<close>

text \<open>
  \<^verbatim>\<open>Number.prototype.toFixed(f)\<close> for a finite number below \<open>10^21\<close>, as ECMAScript
  defines it: the sign is split off, \<open>n\<close> is the integer nearest to \<open>x * 10^f\<close> (the larger
  one at a tie), its digits are padded with zeros to \<open>f + 1\<close> places and the point is
  put before the last \<open>f\<close> digits.
\<close>

definition toFixed :: "nat \<Rightarrow> rat \<Rightarrow> string" where
  "toFixed f x =
     (let s = (if x < 0 then ''-'' else []);
          ax = \<bar>x\<bar>;
          n = nat \<lfloor>ax * 10 ^ f + 1 / 2\<rfloor>;
          m = show_nat n;
          m' = (if f \<noteq> 0 \<and> length m \<le> f then replicate (f + 1 - length m) CHR ''0'' @ m else m);
          k = length m'
      in if f = 0 then s @ m' else s @ take (k - f) m' @ ''.'' @ drop (k - f) m')"

subsection \<open>Route names\<close>

text \<open>
  \<^verbatim>\<open>names[routeType] || routeType\<close> and \<^verbatim>\<open>descriptions[routeType] || '...'\<close>: a lookup in
  a table of four route classes, with a default. (The keys looked up are class names of
  routes; a class named like a property of \<^verbatim>\<open>Object.prototype\<close> is not considered.)
\<close>

definition names :: "(string \<times> string) list" where
  "names =
     [(''AutomaticCCTPRoute'', ''Fast CCTP (Automatic)''),
      (''CCTPRoute'', ''Fast CCTP (Manual)''),
      (''AutomaticTokenBridgeRoute'', ''Token Bridge (Automatic)''),
      (''TokenBridgeRoute'', ''Token Bridge (Manual)'')]"

definition getRouteName :: "string \<Rightarrow> string" where
  "getRouteName routeType = (case map_of names routeType of Some n \<Rightarrow> n | None \<Rightarrow> routeType)"

definition descriptions :: "(string \<times> string) list" where
  "descriptions =
     [(''AutomaticCCTPRoute'', ''Fastest delivery with automatic relayer - includes relay fee''),
      (''CCTPRoute'', ''Fast delivery - requires manual claim on destination chain''),
      (''AutomaticTokenBridgeRoute'', ''Automatic delivery via Token Bridge - may take longer''),
      (''TokenBridgeRoute'', ''Cheapest option - requires manual claim and takes ~12+ days'')]"

definition getRouteDescription :: "string \<Rightarrow> string" where
  "getRouteDescription routeType =
     (case map_of descriptions routeType of Some d \<Rightarrow> d | None \<Rightarrow> ''Standard bridge route'')"

text \<open>\<^verbatim>\<open>String.prototype.includes\<close>: the pattern occurs somewhere in the string.\<close>

fun js_includes :: "string \<Rightarrow> string \<Rightarrow> bool" where
  "js_includes [] pat = (pat = [])"
| "js_includes (c # cs) pat = (take (length pat) (c # cs) = pat \<or> js_includes cs pat)"

definition isAutomaticRoute :: "string \<Rightarrow> bool" where
  "isAutomaticRoute routeType = js_includes routeType ''Automatic''"

subsection \<open>formatETA\<close>

text \<open>
  \<^verbatim>\<open>
  function formatETA(milliseconds: number): string {
    const seconds = Math.floor(milliseconds / 1000);
    const minutes = Math.floor(seconds / 60);
    const hours = Math.floor(minutes / 60);
    const days = Math.floor(hours / 24);
    if (days > 0) return `~${days} day${days > 1 ? 's' : ''}`;
    if (hours > 0) return `~${hours} hour${hours > 1 ? 's' : ''}`;
    if (minutes > 0) return `~${minutes} min`;
    return `~${seconds} sec`;
  }
  \<close>
  \<open>Math.floor\<close> of a quotient of integers is \<open>div\<close> on \<open>int\<close>, which rounds down.
\<close>

definition formatETA :: "rat \<Rightarrow> string" where
  "formatETA milliseconds =
     (let seconds = \<lfloor>milliseconds / 1000\<rfloor>;
          minutes = seconds div 60;
          hours = minutes div 60;
          days = hours div 24
      in if days > 0 then ''~'' @ show_int days @ '' day'' @ (if days > 1 then ''s'' else '''')
         else if hours > 0 then ''~'' @ show_int hours @ '' hour'' @ (if hours > 1 then ''s'' else '''')
         else if minutes > 0 then ''~'' @ show_int minutes @ '' min''
         else ''~'' @ show_int seconds @ '' sec'')"

subsection \<open>formatRoutes\<close>

text \<open>
  \<^verbatim>\<open>quotes[index]\<close>: an entry of the array may be \<^verbatim>\<open>undefined\<close>, and an index past the end
  reads \<^verbatim>\<open>undefined\<close>.
\<close>

definition quote_at :: "quote option list \<Rightarrow> nat \<Rightarrow> quote option" where
  "quote_at quotes index = (if index < length quotes then quotes ! index else None)"

text \<open>
  The callback of \<^verbatim>\<open>allRoutes.map\<close>:
  \<^verbatim>\<open>
  const relayFee = quote?.relayFee;
  const feeAmount = relayFee
    ? parseFloat(relayFee.amount.amount) / Math.pow(10, relayFee.amount.decimals) : 0;
  const feeDisplay = relayFee
    ? `${feeAmount.toFixed(6)} ${relayFee.token.symbol || 'tokens'}` : 'Free';
  const eta = quote?.eta || 0;
  const estimatedTime = formatETA(eta);
  \<close>
\<close>

definition formatRoute :: "'rc route \<Rightarrow> quote option \<Rightarrow> RouteOption" where
  "formatRoute route q =
     (let routeType = constructor_name route;
          fee_opt = Option.bind q relayFee;
          feeAmt = (case fee_opt of
                      Some f \<Rightarrow> of_int (amount f) / 10 ^ decimals f
                    | None \<Rightarrow> 0);
          feeDisplay = (case fee_opt of
                          Some f \<Rightarrow> toFixed 6 feeAmt @ '' '' @ js_or_default (symbol f) ''tokens''
                        | None \<Rightarrow> ''Free'');
          eta_ms = (case Option.bind q eta of None \<Rightarrow> 0 | Some e \<Rightarrow> if e = 0 then 0 else e);
          estimated = formatETA eta_ms
      in \<lparr>type = routeType,
          name = getRouteName routeType,
          description = getRouteDescription routeType,
          fee = feeDisplay,
          feeAmount = Num feeAmt,
          estimatedTime = estimated,
          isAutomatic = isAutomaticRoute routeType\<rparr>)"

definition formatRoutes :: "'rc route list \<Rightarrow> quote option list \<Rightarrow> RouteOption list" where
  "formatRoutes allRoutes quotes =
     map (\<lambda>(route, index). formatRoute route (quote_at quotes index))
         (zip allRoutes [0 ..< length allRoutes])"

subsection \<open>Sorting\<close>

text \<open>
  \<^verbatim>\<open>[...routes].sort(compare)\<close>: a copy is sorted, the argument is untouched. ECMAScript
  requires the sort to be stable, reads a NaN result of the comparator as \<open>0\<close>, and puts
  \<open>a\<close> after \<open>b\<close> only when \<open>compare(a, b) > 0\<close>. With a consistent comparator that fixes
  the result: each element is placed, from the right, before the first element it is
  not greater than. (With an inconsistent comparator the standard leaves the order to
  the implementation; the theorems below are about consistent ones.)
\<close>

fun js_insert :: "('a \<Rightarrow> 'a \<Rightarrow> jsnum) \<Rightarrow> 'a \<Rightarrow> 'a list \<Rightarrow> 'a list" where
  "js_insert compare x [] = [x]"
| "js_insert compare x (y # ys) =
     (if js_pos (compare x y) then y # js_insert compare x ys else x # y # ys)"

definition js_sort :: "('a \<Rightarrow> 'a \<Rightarrow> jsnum) \<Rightarrow> 'a list \<Rightarrow> 'a list" where
  "js_sort compare xs = foldr (js_insert compare) xs []"

definition sortRoutesByFee :: "RouteOption list \<Rightarrow> RouteOption list" where
  "sortRoutesByFee routes = js_sort (\<lambda>a b. js_sub (feeAmount a) (feeAmount b)) routes"

subsection \<open>parseTimeString\<close>

text \<open>
  The character classes of the regular expression \<^verbatim>\<open>/~(\d+)\s*(\w+)/\<close>, on 8-bit
  characters: \<^verbatim>\<open>\d\<close> is \<open>0-9\<close>, \<^verbatim>\<open>\w\<close> is \<open>A-Za-z0-9_\<close>, \<^verbatim>\<open>\s\<close> is tab, line feed, vertical
  tab, form feed, carriage return, space and the no-break space.
\<close>

definition is_digit :: "char \<Rightarrow> bool" where
  "is_digit c = (c \<in> set ''0123456789'')"

definition is_word :: "char \<Rightarrow> bool" where
  "is_word c =
     (c \<in> set ''abcdefghijklmnopqrstuvwxyzABCDEFGHIJKLMNOPQRSTUVWXYZ0123456789_'')"

definition is_space :: "char \<Rightarrow> bool" where
  "is_space c = (c \<in> set [CHR 0x09, CHR 0x0A, CHR 0x0B, CHR 0x0C, CHR 0x0D, CHR '' '', CHR 0xA0])"

text \<open>
  A match of \<^verbatim>\<open>(\d+)\s*(\w+)\<close> right after a \<^verbatim>\<open>~\<close>. The greedy first attempt takes all
  digits, all white space and then all word characters. If no word character follows,
  backtracking on \<^verbatim>\<open>\s*\<close> cannot help (the next character is white space), and
  backtracking on \<^verbatim>\<open>\d+\<close> gives back its last digit, which \<^verbatim>\<open>\w+\<close> then takes: the match
  is all digits but the last, and the last digit as the unit.
\<close>

definition match_after_tilde :: "string \<Rightarrow> (string \<times> string) option" where
  "match_after_tilde s =
     (let ds = takeWhile is_digit s;
          w = takeWhile is_word (dropWhile is_space (dropWhile is_digit s))
      in if ds = [] then None
         else if w \<noteq> [] then Some (ds, w)
         else if length ds \<ge> 2 then Some (butlast ds, [last ds])
         else None)"

text \<open>\<^verbatim>\<open>timeStr.match(...)\<close>: the leftmost position where the expression matches.\<close>

fun time_match :: "string \<Rightarrow> (string \<times> string) option" where
  "time_match [] = None"
| "time_match (c # cs) =
     (if c = CHR ''~'' then (case match_after_tilde cs of Some m \<Rightarrow> Some m | None \<Rightarrow> time_match cs)
      else time_match cs)"

text \<open>\<^verbatim>\<open>parseInt\<close> of a string of decimal digits.\<close>

definition digit_value :: "char \<Rightarrow> nat" where
  "digit_value c = length (takeWhile (\<lambda>d. d \<noteq> c) ''0123456789'')"

definition parseInt :: "string \<Rightarrow> nat" where
  "parseInt s = foldl (\<lambda>n c. 10 * n + digit_value c) 0 s"

definition multipliers :: "(string \<times> nat) list" where
  "multipliers =
     [(''sec'', 1), (''min'', 60), (''hour'', 3600), (''hours'', 3600),
      (''day'', 86400), (''days'', 86400)]"

text \<open>
  \<^verbatim>\<open>multipliers\<close> is an object literal, so a unit that names a property of
  \<^verbatim>\<open>Object.prototype\<close> reads a function or an object instead of \<^verbatim>\<open>undefined\<close>; the product
  with it is NaN.
\<close>

definition object_prototype_names :: "string list" where
  "object_prototype_names =
     [''constructor'', ''hasOwnProperty'', ''isPrototypeOf'', ''propertyIsEnumerable'',
      ''toLocaleString'', ''toString'', ''valueOf'', ''__proto__'', ''__defineGetter__'',
      ''__defineSetter__'', ''__lookupGetter__'', ''__lookupSetter__'']"

definition parseTimeString :: "string \<Rightarrow> jsnum" where
  "parseTimeString timeStr =
     (case time_match timeStr of
        None \<Rightarrow> PosInfinity
      | Some (v, unit) \<Rightarrow>
          (let num = parseInt v in
           case map_of multipliers unit of
             Some m \<Rightarrow> Num (of_nat (num * m))
           | None \<Rightarrow> if unit \<in> set object_prototype_names then NaN else Num (of_nat (num * 1))))"

definition sortRoutesBySpeed :: "RouteOption list \<Rightarrow> RouteOption list" where
  "sortRoutesBySpeed routes =
     js_sort (\<lambda>a b. let aTime = parseTimeString (estimatedTime a);
                        bTime = parseTimeString (estimatedTime b)
                    in js_sub aTime bTime) routes"

text \<open>
  The time a formatted ETA stands for, to compare with what \<^verbatim>\<open>parseTimeString\<close> reads
  back: the whole seconds of the ETA, rounded down to a multiple of the unit shown (days
  of 86400 s, hours of 3600 s, minutes of 60 s, else the seconds themselves). A negative
  ETA is shown with a minus sign and stands for no time: Infinity.
\<close>

definition shown_seconds :: "rat \<Rightarrow> jsnum" where
  "shown_seconds ms =
     (let s = \<lfloor>ms / 1000\<rfloor> in
      if s < 0 then PosInfinity
      else if 86400 \<le> s then Num (of_int (s div 86400 * 86400))
      else if 3600 \<le> s then Num (of_int (s div 3600 * 3600))
      else if 60 \<le> s then Num (of_int (s div 60 * 60))
      else Num (of_int s))"

section \<open>Reading a trace\<close>

text \<open>
  The request the adapter builds for a transaction of the list, and the events of a run of
  transactions that each went through: a send and the wait for its receipt.
\<close>

definition request_of :: "unsigned_tx \<Rightarrow> send_request" where
  "request_of txn = to_request (transaction txn)"

definition completed_events :: "unsigned_tx list \<Rightarrow> string list \<Rightarrow> event list" where
  "completed_events txns hs =
     concat (map (\<lambda>(txn, h). [WalletSendTransaction (request_of txn), WaitForTransactionReceipt h])
                 (zip txns hs))"

text \<open>A request to the wallet for a detached signature.\<close>

fun is_sign_request :: "event \<Rightarrow> bool" where
  "is_sign_request (WalletSignTransaction t) = True"
| "is_sign_request ev = False"

text \<open>
  The wallet accepted each transaction of the list, one after the other, with these hashes,
  and each receipt arrived.
\<close>

fun accepted :: "'rc wallet \<Rightarrow> event list \<Rightarrow> unsigned_tx list \<Rightarrow> string list \<Rightarrow> bool" where
  "accepted w tr [] hs = (hs = [])"
| "accepted w tr (txn # txns) [] = False"
| "accepted w tr (txn # txns) (h # hs) =
     (wallet_sendTransaction w tr (request_of txn) = Inr h
      \<and> \<not> isl (waitForTransactionReceipt w (tr @ [WalletSendTransaction (request_of txn)]) h)
      \<and> accepted w (tr @ [WalletSendTransaction (request_of txn), WaitForTransactionReceipt h])
            txns hs)"

text \<open>
  Transaction \<open>k\<close> failed after the first \<open>k\<close> went through with hashes \<open>hs\<close>: the wallet
  rejected it, or the wait for its receipt failed; \<open>e\<close> is that error and the trace ends
  with that call. \<open>loop_outcome\<close> is what the loop of \<open>signAndSend\<close> can return.
\<close>

definition failed_at ::
  "'rc wallet \<Rightarrow> event list \<Rightarrow> unsigned_tx list \<Rightarrow> nat \<Rightarrow> string list \<Rightarrow> js_error
     \<Rightarrow> event list \<Rightarrow> bool" where
  "failed_at w tr txns k hs e tr' =
     (let before = tr @ completed_events (take k txns) hs;
          sent = before @ [WalletSendTransaction (request_of (txns ! k))]
      in (wallet_sendTransaction w before (request_of (txns ! k)) = Inl e \<and> tr' = sent)
         \<or> (\<exists>h. wallet_sendTransaction w before (request_of (txns ! k)) = Inr h
                  \<and> waitForTransactionReceipt w sent h = Inl e
                  \<and> tr' = sent @ [WaitForTransactionReceipt h]))"

definition loop_outcome ::
  "'rc wallet \<Rightarrow> event list \<Rightarrow> unsigned_tx list \<Rightarrow> string list
     \<Rightarrow> (js_error + string list) \<times> event list \<Rightarrow> bool" where
  "loop_outcome w tr txns txids out =
     (case out of
        (Inr ids, tr') \<Rightarrow>
          (\<exists>hs. ids = txids @ hs \<and> length hs = length txns \<and> accepted w tr txns hs
                \<and> tr' = tr @ completed_events txns hs)
      | (Inl e, tr') \<Rightarrow>
          (\<exists>k hs. k < length txns \<and> length hs = k \<and> accepted w tr (take k txns) hs
                  \<and> failed_at w tr txns k hs e tr'))"

text \<open>A call of one of the three operations of a route.\<close>

fun is_route_call :: "event \<Rightarrow> bool" where
  "is_route_call (RouteValidate n) = True"
| "is_route_call (RouteQuote n) = True"
| "is_route_call (RouteInitiate n) = True"
| "is_route_call ev = False"

section \<open>Example inputs\<close>

text \<open>
  A route of a given class that validates every request and quotes without a relay fee,
  and a quote of an automatic route: 1.5 USDC relay fee, fifteen minutes.
\<close>

definition example_route :: "string \<Rightarrow> unit route" where
  "example_route cls =
     \<lparr>constructor_name = cls,
      validate = (\<lambda>tr req ps. Inr \<lparr>valid = True, params = ps, validation_error = None\<rparr>),
      route_quote = (\<lambda>tr req ps. Inr \<lparr>success = True, quote_error = None, relayFee = None,
                                         eta = Some 900000, destinationChain = ''Base''\<rparr>),
      initiate = (\<lambda>tr req signer q addr. (Inr None, []))\<rparr>"

definition example_quote :: quote where
  "example_quote =
     \<lparr>success = True, quote_error = None,
      relayFee = Some \<lparr>amount = 1500000, decimals = 6, symbol = Some ''USDC''\<rparr>,
      eta = Some 900000, destinationChain = ''Base''\<rparr>"

text \<open>A route option with a given class, fee magnitude and ETA string.\<close>

definition example_option :: "string \<Rightarrow> jsnum \<Rightarrow> string \<Rightarrow> RouteOption" where
  "example_option cls amt time =
     \<lparr>type = cls, name = getRouteName cls, description = getRouteDescription cls,
      fee = ''fee'', feeAmount = amt, estimatedTime = time, isAutomatic = isAutomaticRoute cls\<rparr>"

text \<open>
  Four options with ETAs of fourteen days, 89 seconds, 61 seconds and one hour, and the
  ETA each was formatted from.
\<close>

definition example_eta :: "RouteOption \<Rightarrow> rat" where
  "example_eta r =
     (if type r = ''TokenBridgeRoute'' then 1209600000
      else if type r = ''AutomaticCCTPRoute'' then 89000
      else if type r = ''CCTPRoute'' then 61000
      else 3600000)"

definition example_options :: "RouteOption list" where
  "example_options =
     [example_option ''TokenBridgeRoute'' (Num 0) (formatETA 1209600000),
      example_option ''AutomaticCCTPRoute'' (Num 5) (formatETA 89000),
      example_option ''CCTPRoute'' (Num 0) (formatETA 61000),
      example_option ''AutomaticTokenBridgeRoute'' (Num 2) (formatETA 3600000)]"

text \<open>
  A wallet that accepts every transaction, one that declines every transaction, a signer
  over a wallet and a transaction with given call data.
\<close>

definition accepting_wallet :: "unit wallet" where
  "accepting_wallet =
     \<lparr>wallet_sendTransaction = (\<lambda>tr req. Inr (''0x'' @ req_data req)),
      waitForTransactionReceipt = (\<lambda>tr h. Inr ())\<rparr>"

definition declining_wallet :: "unit wallet" where
  "declining_wallet =
     \<lparr>wallet_sendTransaction = (\<lambda>tr req. Inl (Error ''User rejected the request.'')),
      waitForTransactionReceipt = (\<lambda>tr h. Inr ())\<rparr>"

definition example_signer :: "unit wallet \<Rightarrow> unit ViemWormholeSigner" where
  "example_signer w = \<lparr>chainName = ''Ethereum'', walletAddress = ''0xabc'', ethersSigner = w\<rparr>"

definition example_tx :: "string \<Rightarrow> unsigned_tx" where
  "example_tx d =
     \<lparr>transaction =
        \<lparr>tx_to = ''0xc0ffee'', tx_data = d, tx_value = Some 0, tx_gasLimit = Some 100000,
         tx_maxFeePerGas = None, tx_maxPriorityFeePerGas = None, tx_nonce = None\<rparr>,
      tx_description = d\<rparr>"

text \<open>
  A transfer request; a route whose validation says the amount is too small; a route
  whose quote fails; a route whose \<open>initiate\<close> sends an approval and a transfer through the
  signer and lists both in the receipt; that receipt; and a protocol library that knows
  no destination token.
\<close>

definition example_request :: transfer_request where
  "example_request =
     \<lparr>source = \<lparr>token_chain = ''Ethereum'', token_address = ''0xa0b8''\<rparr>,
      destination = \<lparr>token_chain = ''Base'', token_address = ''0x8335''\<rparr>,
      sender = Some ''0xabc'', receiver = Some ''0xabc''\<rparr>"

definition rejecting_route :: "unit route" where
  "rejecting_route =
     (example_route ''CCTPRoute'')
       \<lparr>validate := (\<lambda>tr req ps. Inr \<lparr>valid = False, params = ps,
                                         validation_error = Some ''Amount too small''\<rparr>)\<rparr>"

definition unquotable_route :: "unit route" where
  "unquotable_route =
     (example_route ''CCTPRoute'')
       \<lparr>route_quote := (\<lambda>tr req ps. Inr \<lparr>success = False, quote_error = Some ''Relayer offline'',
                                           relayFee = None, eta = None, destinationChain = ''Base''\<rparr>)\<rparr>"

definition approving_route :: "unit route" where
  "approving_route =
     (example_route ''CCTPRoute'')
       \<lparr>initiate := (\<lambda>tr req signer q addr.
          case signAndSend signer tr [example_tx ''approve'', example_tx ''transfer''] of
            (Inl e, tr') \<Rightarrow> (Inl e, drop (length tr) tr')
          | (Inr ids, tr') \<Rightarrow>
              (Inr (Some \<lparr>originTxs = Some (map (\<lambda>h. \<lparr>ref_chain = chainName signer, txid = Some h\<rparr>) ids),
                          receipt_txid = None, receipt_hash = None\<rparr>),
               drop (length tr) tr'))\<rparr>"

definition two_tx_receipt :: receipt where
  "two_tx_receipt =
     \<lparr>originTxs = Some [\<lparr>ref_chain = ''Ethereum'', txid = Some ''0xapprove''\<rparr>,
                        \<lparr>ref_chain = ''Ethereum'', txid = Some ''0xtransfer''\<rparr>],
      receipt_txid = None, receipt_hash = None\<rparr>"

definition example_params :: quote_params where
  "example_params =
     \<lparr>sourceChain = ''Ethereum'', destChain = ''Base'', tokenAddress = ''0xa0b8'',
      qp_amount = ''10'', sourceAddress = ''0xabc'', destAddress = ''0xabc''\<rparr>"

definition no_destination_sdk :: "unit protocol" where
  "no_destination_sdk =
     \<lparr>initWormhole = (\<lambda>tr. Inr ()),
      getChain = (\<lambda>n. Inr \<lparr>chain = n\<rparr>),
      tokenId = (\<lambda>c a. Inr \<lparr>token_chain = c, token_address = a\<rparr>),
      supportedDestinationTokens = (\<lambda>tr t s d. Inr (Some [])),
      parseAddress = (\<lambda>c a. Inr a),
      createTransferRequest = (\<lambda>tr s d. Inr \<lparr>source = s, destination = d, sender = None, receiver = None\<rparr>),
      findRoutes = (\<lambda>tr req. Inr (Some [example_route ''CCTPRoute'']))\<rparr>"

section \<open>Properties\<close>

subsection \<open>Evaluating the string functions\<close>

lemma show_nat_digit: "n < 10 \<Longrightarrow> show_nat n = [digit_char n]"
  by (simp add: show_nat.simps)

lemma show_nat_ge10: "10 \<le> n \<Longrightarrow> show_nat n = show_nat (n div 10) @ [digit_char (n mod 10)]"
  by (subst show_nat.simps) simp

lemmas show_nat_eval = show_nat_digit show_nat_ge10 digit_char_def


lemma gt1_iff: "(1 < (d::int)) = (d \<noteq> 1 \<and> 0 < d)"
  by linarith

subsection \<open>The formatted ETA\<close>

lemma formatETA_by_seconds:
  "formatETA ms =
     (let s = \<lfloor>ms / 1000\<rfloor> in
      if 86400 \<le> s then ''~'' @ show_int (s div 86400) @ (if s div 86400 = 1 then '' day'' else '' days'')
      else if 3600 \<le> s then ''~'' @ show_int (s div 3600) @ (if s div 3600 = 1 then '' hour'' else '' hours'')
      else if 60 \<le> s then ''~'' @ show_int (s div 60) @ '' min''
      else ''~'' @ show_int s @ '' sec'')"
proof -
  define s where "s = \<lfloor>ms / 1000\<rfloor>"
  have h: "s div 60 div 60 = s div 3600"
    using zdiv_zmult2_eq [of 60 s 60] by simp
  have d: "s div 3600 div 24 = s div 86400"
    using zdiv_zmult2_eq [of 24 s 3600] by simp
  have m0: "(0 < s div 60) = (60 \<le> s)"
    by (rule pos_imp_zdiv_pos_iff) simp
  have h0: "(0 < s div 3600) = (3600 \<le> s)"
    by (rule pos_imp_zdiv_pos_iff) simp
  have d0: "(0 < s div 86400) = (86400 \<le> s)"
    by (rule pos_imp_zdiv_pos_iff) simp
  show ?thesis
    unfolding formatETA_def Let_def s_def [symmetric] h d gt1_iff m0 h0 d0
    by simp
qed

text \<open>
  C3 (as the code has it). With \<open>s\<close> the whole seconds of the ETA, the string is a tilde,
  the count of the largest unit that fits (days from 86400 s, hours from 3600 s, minutes
  from 60 s, else seconds) and the unit: \<open>day\<close> or \<open>hour\<close> at count 1, \<open>days\<close> or \<open>hours\<close>
  above, and the fixed abbreviations \<open>min\<close> and \<open>sec\<close> at every count. Smaller units are
  dropped: 90000 ms and 60000 ms both give \<open>~1 min\<close>.
\<close>

theorem formatETA_largest_unit:
  "formatETA ms =
     (let s = \<lfloor>ms / 1000\<rfloor> in
      if 86400 \<le> s then ''~'' @ show_int (s div 86400) @ (if s div 86400 = 1 then '' day'' else '' days'')
      else if 3600 \<le> s then ''~'' @ show_int (s div 3600) @ (if s div 3600 = 1 then '' hour'' else '' hours'')
      else if 60 \<le> s then ''~'' @ show_int (s div 60) @ '' min''
      else ''~'' @ show_int s @ '' sec'')
   \<and> formatETA 90000 = ''~1 min'' \<and> formatETA 60000 = ''~1 min''"
proof -
  have a: "formatETA 90000 = ''~1 min''"
    by (simp add: formatETA_def show_int_def show_nat_eval)
  have b: "formatETA 60000 = ''~1 min''"
    by (simp add: formatETA_def show_int_def show_nat_eval)
  from formatETA_by_seconds [of ms] a b show ?thesis
    by (intro conjI)
qed

text \<open>
  The strings of the claim are not the strings of the code: 90 seconds do not format as
  \<open>1 minute\<close>, and two minutes carry the same unit word as one.
\<close>

theorem formatETA_minute_counterexample:
  "formatETA 90000 \<noteq> ''1 minute'' \<and> formatETA 60000 \<noteq> ''1 minute''
   \<and> formatETA 60000 = ''~1 min'' \<and> formatETA 120000 = ''~2 min''"
  by (simp add: formatETA_def show_int_def show_nat_eval)

subsection \<open>Formatting routes\<close>

lemma formatRoutes_nth:
  "i < length allRoutes \<Longrightarrow>
     formatRoutes allRoutes quotes ! i = formatRoute (allRoutes ! i) (quote_at quotes i)"
  by (simp add: formatRoutes_def)

lemma formatETA_zero: "formatETA 0 = ''~0 sec''"
  by (simp add: formatETA_def show_int_def show_nat_eval)

lemma formatRoute_no_fee:
  "Option.bind q relayFee = None \<Longrightarrow>
     fee (formatRoute r q) = ''Free'' \<and> feeAmount (formatRoute r q) = Num 0"
  by (simp add: formatRoute_def Let_def)

lemma formatRoute_no_eta:
  "Option.bind q eta = None \<Longrightarrow> estimatedTime (formatRoute r q) = ''~0 sec''"
  by (simp add: formatRoute_def Let_def formatETA_zero)



text \<open>
  C10. \<open>formatRoutes\<close> returns one option per route, at the same index and of the route's
  class, whatever the list of quotes. A route whose quote is missing, or has neither a
  relay fee nor an ETA, is still presented: free, magnitude 0, \<open>~0 sec\<close>.
\<close>

theorem formatRoutes_one_option_per_route:
  "length (formatRoutes allRoutes quotes) = length allRoutes
   \<and> (\<forall>i<length allRoutes.
         type (formatRoutes allRoutes quotes ! i) = constructor_name (allRoutes ! i)
         \<and> (Option.bind (quote_at quotes i) relayFee = None
              \<and> Option.bind (quote_at quotes i) eta = None \<longrightarrow>
            fee (formatRoutes allRoutes quotes ! i) = ''Free''
            \<and> feeAmount (formatRoutes allRoutes quotes ! i) = Num 0
            \<and> estimatedTime (formatRoutes allRoutes quotes ! i) = ''~0 sec''))"
proof -
  have len: "length (formatRoutes allRoutes quotes) = length allRoutes"
    by (simp add: formatRoutes_def)
  have ty: "type (formatRoute r q) = constructor_name r" for r :: "'a route" and q
    by (simp add: formatRoute_def Let_def)
  show ?thesis
    using len by (simp add: formatRoutes_nth ty formatRoute_no_fee formatRoute_no_eta)
qed



theorem formatRoutes_one_option_per_route_witness:
  "length (formatRoutes [example_route ''AutomaticCCTPRoute'', example_route ''TokenBridgeRoute'']
             [Some example_quote]) = 2
   \<and> fee (formatRoutes [example_route ''AutomaticCCTPRoute'', example_route ''TokenBridgeRoute'']
             [Some example_quote] ! 1) = ''Free''
   \<and> feeAmount (formatRoutes [example_route ''AutomaticCCTPRoute'', example_route ''TokenBridgeRoute'']
             [Some example_quote] ! 1) = Num 0
   \<and> estimatedTime (formatRoutes [example_route ''AutomaticCCTPRoute'', example_route ''TokenBridgeRoute'']
             [Some example_quote] ! 1) = ''~0 sec''"
proof -
  let ?rs = "[example_route ''AutomaticCCTPRoute'', example_route ''TokenBridgeRoute'']"
  let ?qs = "[Some example_quote]"
  have i: "(1::nat) < length ?rs" by simp
  have q: "Option.bind (quote_at ?qs 1) relayFee = None \<and> Option.bind (quote_at ?qs 1) eta = None"
    by (simp add: quote_at_def)
  from formatRoutes_one_option_per_route [of ?rs ?qs] i q show ?thesis
    by simp
qed

subsection \<open>Sorting route options\<close>

lemma js_insert_insort_key:
  fixes f :: "'a \<Rightarrow> 'b::linorder"
  assumes "\<forall>y\<in>set ys. js_pos (cmp x y) = (f y < f x)"
  shows "js_insert cmp x ys = insort_key f x ys"
  using assms by (induction ys) (auto simp: not_le)

lemma js_sort_sort_key:
  fixes f :: "'a \<Rightarrow> 'b::linorder"
  assumes "\<forall>x\<in>set xs. \<forall>y\<in>set xs. js_pos (cmp x y) = (f y < f x)"
  shows "js_sort cmp xs = sort_key f xs"
  using assms
proof (induction xs)
  case Nil
  show ?case by (simp add: js_sort_def)
next
  case (Cons x xs)
  have ih: "js_sort cmp xs = sort_key f xs"
    using Cons by simp
  have "js_sort cmp (x # xs) = js_insert cmp x (js_sort cmp xs)"
    by (simp add: js_sort_def)
  also have "\<dots> = js_insert cmp x (sort_key f xs)"
    by (simp add: ih)
  also have "\<dots> = insort_key f x (sort_key f xs)"
    using Cons.prems by (intro js_insert_insort_key) simp
  finally show ?case by simp
qed

lemma js_pos_sub_rank:
  "a \<noteq> NaN \<Longrightarrow> b \<noteq> NaN \<Longrightarrow> js_pos (js_sub a b) = (rank b < rank a)"
  by (cases a; cases b) auto

lemma js_le_rank: "a \<noteq> NaN \<Longrightarrow> b \<noteq> NaN \<Longrightarrow> js_le a b = (rank a \<le> rank b)"
  by (cases a; cases b) auto

lemma rank_inject: "(rank a = rank b) = (a = b)"
  by (cases a; cases b) auto

lemma js_pos_sub_self: "\<not> js_pos (js_sub a a)"
  by (cases a) auto

text \<open>A comparator that subtracts keys sorts stably by the key, if no key is NaN.\<close>

lemma js_sort_by_key:
  assumes "\<forall>x\<in>set xs. key x \<noteq> NaN"
  shows "js_sort (\<lambda>a b. js_sub (key a) (key b)) xs = sort_key (\<lambda>x. rank (key x)) xs"
proof (rule js_sort_sort_key [where f = "\<lambda>x. rank (key x)"])
  show "\<forall>x\<in>set xs. \<forall>y\<in>set xs.
          js_pos (js_sub (key x) (key y)) = (rank (key y) < rank (key x))"
    using assms by (simp add: js_pos_sub_rank)
qed

lemma js_sort_by_key_props:
  assumes "\<forall>x\<in>set xs. key x \<noteq> NaN"
  defines "ys \<equiv> js_sort (\<lambda>a b. js_sub (key a) (key b)) xs"
  shows "sorted_wrt (\<lambda>a b. js_le (key a) (key b)) ys"
    and "mset ys = mset xs"
    and "filter (\<lambda>x. key x = k) ys = filter (\<lambda>x. key x = k) xs"
proof -
  have eq: "ys = sort_key (\<lambda>x. rank (key x)) xs"
    unfolding ys_def using assms(1) by (rule js_sort_by_key)
  show m: "mset ys = mset xs"
    unfolding eq by (rule mset_sort)
  have s: "set ys = set xs"
    unfolding eq by (rule set_sort)
  have "sorted (map (\<lambda>x. rank (key x)) ys)"
    unfolding eq by (rule sorted_sort_key)
  then have r: "sorted_wrt (\<lambda>a b. rank (key a) \<le> rank (key b)) ys"
    by (simp only: sorted_map)
  show "sorted_wrt (\<lambda>a b. js_le (key a) (key b)) ys"
  proof (rule sorted_wrt_mono_rel [OF _ r])
    fix a b
    assume "a \<in> set ys" "b \<in> set ys" "rank (key a) \<le> rank (key b)"
    with s assms(1) show "js_le (key a) (key b)"
      by (simp add: js_le_rank)
  qed
  have "filter (\<lambda>x. rank (key x) = rank k) ys = filter (\<lambda>x. rank (key x) = rank k) xs"
    unfolding eq by (rule sort_key_stable)
  then show "filter (\<lambda>x. key x = k) ys = filter (\<lambda>x. key x = k) xs"
    by (simp only: rank_inject)
qed



text \<open>
  C7. On options whose fee magnitudes are numbers, \<open>sortRoutesByFee\<close> returns the same
  options in ascending order of fee magnitude, and options of equal magnitude keep
  their order. Three options with magnitudes 0, 5, 2 come out as first, third, second,
  whatever their other fields.
\<close>

theorem sortRoutesByFee_stable_ascending:
  "((\<forall>r\<in>set routes. feeAmount r \<noteq> NaN) \<longrightarrow>
      sorted_wrt (\<lambda>a b. js_le (feeAmount a) (feeAmount b)) (sortRoutesByFee routes)
      \<and> mset (sortRoutesByFee routes) = mset routes
      \<and> (\<forall>k. filter (\<lambda>r. feeAmount r = k) (sortRoutesByFee routes)
               = filter (\<lambda>r. feeAmount r = k) routes))
   \<and> (feeAmount a = Num 0 \<and> feeAmount b = Num 5 \<and> feeAmount c = Num 2 \<longrightarrow>
        sortRoutesByFee [a, b, c] = [a, c, b])"
proof (intro conjI impI allI)
  assume "feeAmount a = Num 0 \<and> feeAmount b = Num 5 \<and> feeAmount c = Num 2"
  then show "sortRoutesByFee [a, b, c] = [a, c, b]"
    by (simp add: sortRoutesByFee_def js_sort_def)
next
  assume nonan: "\<forall>r\<in>set routes. feeAmount r \<noteq> NaN"
  show "sorted_wrt (\<lambda>a b. js_le (feeAmount a) (feeAmount b)) (sortRoutesByFee routes)"
    unfolding sortRoutesByFee_def using nonan by (rule js_sort_by_key_props(1))
  show "mset (sortRoutesByFee routes) = mset routes"
    unfolding sortRoutesByFee_def using nonan by (rule js_sort_by_key_props(2))
  show "filter (\<lambda>r. feeAmount r = k) (sortRoutesByFee routes) = filter (\<lambda>r. feeAmount r = k) routes"
    for k
    unfolding sortRoutesByFee_def using nonan by (rule js_sort_by_key_props(3))
qed

theorem sortRoutesByFee_stable_ascending_witness:
  "feeAmount (example_option ''TokenBridgeRoute'' (Num 0) ''~14 days'') = Num 0
   \<and> feeAmount (example_option ''AutomaticCCTPRoute'' (Num 5) ''~15 min'') = Num 5
   \<and> feeAmount (example_option ''AutomaticTokenBridgeRoute'' (Num 2) ''~1 hour'') = Num 2
   \<and> sortRoutesByFee
        [example_option ''TokenBridgeRoute'' (Num 0) ''~14 days'',
         example_option ''AutomaticCCTPRoute'' (Num 5) ''~15 min'',
         example_option ''AutomaticTokenBridgeRoute'' (Num 2) ''~1 hour'']
     = [example_option ''TokenBridgeRoute'' (Num 0) ''~14 days'',
        example_option ''AutomaticTokenBridgeRoute'' (Num 2) ''~1 hour'',
        example_option ''AutomaticCCTPRoute'' (Num 5) ''~15 min'']
   \<and> mset (sortRoutesByFee
        [example_option ''TokenBridgeRoute'' (Num 0) ''~14 days'',
         example_option ''AutomaticCCTPRoute'' (Num 5) ''~15 min'',
         example_option ''AutomaticTokenBridgeRoute'' (Num 2) ''~1 hour''])
     = mset [example_option ''TokenBridgeRoute'' (Num 0) ''~14 days'',
         example_option ''AutomaticCCTPRoute'' (Num 5) ''~15 min'',
         example_option ''AutomaticTokenBridgeRoute'' (Num 2) ''~1 hour'']"
proof -
  let ?a = "example_option ''TokenBridgeRoute'' (Num 0) ''~14 days''"
  let ?b = "example_option ''AutomaticCCTPRoute'' (Num 5) ''~15 min''"
  let ?c = "example_option ''AutomaticTokenBridgeRoute'' (Num 2) ''~1 hour''"
  have fees: "feeAmount ?a = Num 0 \<and> feeAmount ?b = Num 5 \<and> feeAmount ?c = Num 2"
    by (simp add: example_option_def)
  then have nonan: "\<forall>r\<in>set [?a, ?b, ?c]. feeAmount r \<noteq> NaN"
    by simp
  note T = sortRoutesByFee_stable_ascending [of "[?a, ?b, ?c]" ?a ?b ?c]
  have p1: "mset (sortRoutesByFee [?a, ?b, ?c]) = mset [?a, ?b, ?c]"
    using T [THEN conjunct1, THEN mp, OF nonan] by (rule conjunct2 [THEN conjunct1])
  have p2: "sortRoutesByFee [?a, ?b, ?c] = [?a, ?c, ?b]"
    using T [THEN conjunct2, THEN mp, OF fees] .
  from fees p1 p2 show ?thesis by blast
qed

subsection \<open>Parsing a formatted ETA back\<close>

lemma below_ten: "d < 10 \<Longrightarrow> d \<in> {0, 1, 2, 3, 4, 5, 6, 7, 8, 9::nat}"
  by auto

lemma digit_char_is_digit: "d < 10 \<Longrightarrow> is_digit (digit_char d)"
  by (drule below_ten) (auto simp: digit_char_def is_digit_def)

lemma digit_value_digit_char: "d < 10 \<Longrightarrow> digit_value (digit_char d) = d"
  by (drule below_ten) (auto simp: digit_char_def digit_value_def)

lemma show_nat_digits: "\<forall>c\<in>set (show_nat n). is_digit c"
proof (induction n rule: show_nat.induct)
  case (1 n)
  show ?case
  proof (cases "n < 10")
    case True
    then show ?thesis by (simp add: show_nat_digit digit_char_is_digit)
  next
    case False
    with 1 show ?thesis by (simp add: show_nat_ge10 digit_char_is_digit)
  qed
qed

lemma show_nat_nonempty: "show_nat n \<noteq> []"
  by (subst show_nat.simps) simp

lemma parseInt_snoc: "parseInt (s @ [c]) = 10 * parseInt s + digit_value c"
  by (simp add: parseInt_def)

lemma parseInt_show_nat: "parseInt (show_nat n) = n"
proof (induction n rule: show_nat.induct)
  case (1 n)
  show ?case
  proof (cases "n < 10")
    case True
    then show ?thesis by (simp add: show_nat_digit parseInt_def digit_value_digit_char)
  next
    case False
    with 1 show ?thesis
      by (simp add: show_nat_ge10 parseInt_snoc digit_value_digit_char)
  qed
qed


lemma word_not_space: "is_word c \<Longrightarrow> \<not> is_space c"
  by (auto simp: is_word_def is_space_def)

lemma digit_not_tilde: "is_digit c \<Longrightarrow> c \<noteq> CHR ''~''"
  by (auto simp: is_digit_def)

lemma time_match_no_tilde: "CHR ''~'' \<notin> set s \<Longrightarrow> time_match s = None"
  by (induction s) auto

lemma match_after_tilde_digits_unit:
  assumes ds: "ds \<noteq> []" "\<forall>c\<in>set ds. is_digit c"
    and u: "u \<noteq> []" "\<forall>c\<in>set u. is_word c"
  shows "match_after_tilde (ds @ CHR '' '' # u) = Some (ds, u)"
proof -
  have sp: "\<not> is_digit CHR '' ''" "is_space CHR '' ''"
    by (simp_all add: is_digit_def is_space_def)
  have t: "takeWhile is_digit (ds @ CHR '' '' # u) = ds"
    using ds(2) sp(1) by (simp add: takeWhile_tail)
  have dr: "dropWhile is_digit (ds @ CHR '' '' # u) = CHR '' '' # u"
    using ds(2) sp(1) by (simp add: dropWhile_append3)
  have "dropWhile is_space u = u"
    using u by (cases u) (simp_all add: word_not_space)
  then have ws: "dropWhile is_space (CHR '' '' # u) = u"
    using sp(2) by simp
  have w: "takeWhile is_word u = u"
    using u(2) by simp
  show ?thesis
    unfolding match_after_tilde_def Let_def t dr ws w using ds(1) u(1) by simp
qed

lemma parseTimeString_count_unit:
  assumes "map_of multipliers u = Some m" "u \<noteq> []" "\<forall>c\<in>set u. is_word c"
  shows "parseTimeString (CHR ''~'' # show_nat n @ CHR '' '' # u) = Num (of_nat (n * m))"
proof -
  have "match_after_tilde (show_nat n @ CHR '' '' # u) = Some (show_nat n, u)"
    using assms(2,3) by (intro match_after_tilde_digits_unit show_nat_nonempty show_nat_digits)
  then have "time_match (CHR ''~'' # show_nat n @ CHR '' '' # u) = Some (show_nat n, u)"
    by simp
  then show ?thesis
    using assms(1) by (simp add: parseTimeString_def parseInt_show_nat)
qed

lemma parseTimeString_negative:
  "parseTimeString (CHR ''~'' # CHR ''-'' # show_nat n @ '' sec'') = PosInfinity"
proof -
  have "match_after_tilde (CHR ''-'' # show_nat n @ '' sec'') = None"
    by (simp add: match_after_tilde_def is_digit_def)
  moreover have "CHR ''~'' \<notin> set (CHR ''-'' # show_nat n @ '' sec'')"
    using show_nat_digits [of n] digit_not_tilde by auto
  ultimately have "time_match (CHR ''~'' # CHR ''-'' # show_nat n @ '' sec'') = None"
    by (simp add: time_match_no_tilde)
  then show ?thesis by (simp add: parseTimeString_def)
qed

lemma units:
  "map_of multipliers ''sec'' = Some 1" "\<forall>c\<in>set ''sec''. is_word c"
  "map_of multipliers ''min'' = Some 60" "\<forall>c\<in>set ''min''. is_word c"
  "map_of multipliers ''hour'' = Some 3600" "\<forall>c\<in>set ''hour''. is_word c"
  "map_of multipliers ''hours'' = Some 3600" "\<forall>c\<in>set ''hours''. is_word c"
  "map_of multipliers ''day'' = Some 86400" "\<forall>c\<in>set ''day''. is_word c"
  "map_of multipliers ''days'' = Some 86400" "\<forall>c\<in>set ''days''. is_word c"
  by (simp_all add: multipliers_def is_word_def)

text \<open>
  What is parsed back from a formatted ETA: the whole seconds rounded down to the unit
  shown, and Infinity for a negative time (the minus sign is not a digit).
\<close>

lemma parseTimeString_formatETA:
  "parseTimeString (formatETA ms) =
     (let s = \<lfloor>ms / 1000\<rfloor> in
      if s < 0 then PosInfinity
      else if 86400 \<le> s then Num (of_int (s div 86400 * 86400))
      else if 3600 \<le> s then Num (of_int (s div 3600 * 3600))
      else if 60 \<le> s then Num (of_int (s div 60 * 60))
      else Num (of_int s))"
proof -
  define s where "s = \<lfloor>ms / 1000\<rfloor>"
  have count: "parseTimeString (''~'' @ show_int k @ CHR '' '' # u) = Num (of_int (k * int m))"
    if "0 \<le> k" "map_of multipliers u = Some m" "u \<noteq> []" "\<forall>c\<in>set u. is_word c" for k u m
  proof -
    have "parseTimeString (CHR ''~'' # show_nat (nat k) @ CHR '' '' # u) = Num (of_nat (nat k * m))"
      using that(2-4) by (rule parseTimeString_count_unit)
    moreover have "(of_nat (nat k * m) :: rat) = of_int (k * int m)"
      using that(1) by simp
    ultimately show ?thesis
      using that(1) by (simp add: show_int_def)
  qed
  have f: "formatETA ms =
      (if 86400 \<le> s then ''~'' @ show_int (s div 86400) @ (if s div 86400 = 1 then '' day'' else '' days'')
       else if 3600 \<le> s then ''~'' @ show_int (s div 3600) @ (if s div 3600 = 1 then '' hour'' else '' hours'')
       else if 60 \<le> s then ''~'' @ show_int (s div 60) @ '' min''
       else ''~'' @ show_int s @ '' sec'')"
    using formatETA_by_seconds [of ms] by (simp add: Let_def s_def)
  consider (neg) "s < 0" | (sec) "0 \<le> s" "s < 60" | (min) "60 \<le> s" "s < 3600"
    | (hour) "3600 \<le> s" "s < 86400" | (day) "86400 \<le> s"
    by linarith
  then have "parseTimeString (formatETA ms) =
      (if s < 0 then PosInfinity
       else if 86400 \<le> s then Num (of_int (s div 86400 * 86400))
       else if 3600 \<le> s then Num (of_int (s div 3600 * 3600))
       else if 60 \<le> s then Num (of_int (s div 60 * 60))
       else Num (of_int s))"
  proof cases
    case neg
    then have "formatETA ms = CHR ''~'' # CHR ''-'' # show_nat (nat (- s)) @ '' sec''"
      by (simp add: f show_int_def)
    with neg show ?thesis by (simp only: parseTimeString_negative) simp
  next
    case sec
    then have "formatETA ms = ''~'' @ show_int s @ CHR '' '' # ''sec''"
      by (simp add: f)
    with sec count [of s "''sec''" 1] units show ?thesis by simp
  next
    case min
    then have k: "0 \<le> s div 60" by simp
    from min have "formatETA ms = ''~'' @ show_int (s div 60) @ CHR '' '' # ''min''"
      by (simp add: f)
    with min count [OF k, of "''min''" 60] units show ?thesis by simp
  next
    case hour
    then have k: "0 \<le> s div 3600" by simp
    from hour have "formatETA ms = ''~'' @ show_int (s div 3600) @ CHR '' '' # ''hour''
        \<or> formatETA ms = ''~'' @ show_int (s div 3600) @ CHR '' '' # ''hours''"
      by (simp add: f)
    with hour count [OF k, of "''hour''" 3600] count [OF k, of "''hours''" 3600] units
    show ?thesis by auto
  next
    case day
    then have k: "0 \<le> s div 86400" by simp
    from day have "formatETA ms = ''~'' @ show_int (s div 86400) @ CHR '' '' # ''day''
        \<or> formatETA ms = ''~'' @ show_int (s div 86400) @ CHR '' '' # ''days''"
      by (simp add: f)
    with day count [OF k, of "''day''" 86400] count [OF k, of "''days''" 86400] units
    show ?thesis by auto
  qed
  then show ?thesis by (simp add: Let_def s_def)
qed

lemma parseTimeString_formatETA_not_NaN: "parseTimeString (formatETA ms) \<noteq> NaN"
  by (simp add: parseTimeString_formatETA Let_def)

lemma formatRoutes_times_parse:
  "\<forall>r\<in>set (formatRoutes allRoutes quotes). parseTimeString (estimatedTime r) \<noteq> NaN"
  by (auto simp: formatRoutes_def formatRoute_def Let_def parseTimeString_formatETA_not_NaN)

subsection \<open>Sorting by speed\<close>

lemma parseTimeString_shown: "parseTimeString (formatETA ms) = shown_seconds ms"
  by (simp only: parseTimeString_formatETA shown_seconds_def)

lemma shown_seconds_not_NaN: "shown_seconds ms \<noteq> NaN"
  by (simp add: shown_seconds_def Let_def)

text \<open>
  C4. \<open>sortRoutesBySpeed\<close> orders by the number parsed back from each ETA string, the only
  trace of the ETA an option holds. For a formatted ETA that number is the whole seconds
  rounded down to the unit shown, not the milliseconds. So on options whose strings were
  formatted from ETAs, the result is the same options in ascending order of those
  rounded seconds, and options with equal rounded seconds keep their order: two options
  whose millisecond ETAs differ but format to one string are never reordered, in
  whichever order they arrive. The same holds, in terms of the parsed values, for any
  strings that parse to a number or to Infinity, as all strings of \<open>formatRoutes\<close> do.
\<close>

theorem sortRoutesBySpeed_by_parsed_string:
  "parseTimeString (formatETA ms) = shown_seconds ms
   \<and> ((\<forall>r\<in>set routes. estimatedTime r = formatETA (eta_of r)) \<longrightarrow>
        sorted_wrt (\<lambda>a b. js_le (shown_seconds (eta_of a)) (shown_seconds (eta_of b)))
          (sortRoutesBySpeed routes)
        \<and> mset (sortRoutesBySpeed routes) = mset routes
        \<and> (\<forall>k. filter (\<lambda>r. shown_seconds (eta_of r) = k) (sortRoutesBySpeed routes)
                 = filter (\<lambda>r. shown_seconds (eta_of r) = k) routes))
   \<and> ((\<forall>r\<in>set routes. parseTimeString (estimatedTime r) \<noteq> NaN) \<longrightarrow>
      sorted_wrt (\<lambda>a b. js_le (parseTimeString (estimatedTime a)) (parseTimeString (estimatedTime b)))
        (sortRoutesBySpeed routes)
      \<and> mset (sortRoutesBySpeed routes) = mset routes
      \<and> (\<forall>s. filter (\<lambda>r. estimatedTime r = s) (sortRoutesBySpeed routes)
               = filter (\<lambda>r. estimatedTime r = s) routes))
   \<and> (estimatedTime a = formatETA m1 \<and> estimatedTime b = formatETA m2
        \<and> formatETA m1 = formatETA m2 \<longrightarrow>
        sortRoutesBySpeed [a, b] = [a, b] \<and> sortRoutesBySpeed [b, a] = [b, a])
   \<and> (\<forall>r\<in>set (formatRoutes allRoutes quotes). parseTimeString (estimatedTime r) \<noteq> NaN)"
proof -
  let ?key = "\<lambda>r. parseTimeString (estimatedTime r)"
  let ?shown = "\<lambda>r. shown_seconds (eta_of r)"
  let ?ys = "sortRoutesBySpeed routes"
  have eq: "?ys = js_sort (\<lambda>a b. js_sub (?key a) (?key b)) routes"
    by (simp add: sortRoutesBySpeed_def Let_def)
  have same: "sortRoutesBySpeed [x, y] = [x, y]" if "estimatedTime x = estimatedTime y" for x y
    using that by (simp add: sortRoutesBySpeed_def js_sort_def js_pos_sub_self)
  have general:
    "sorted_wrt (\<lambda>a b. js_le (?key a) (?key b)) ?ys
     \<and> mset ?ys = mset routes
     \<and> (\<forall>s. filter (\<lambda>r. estimatedTime r = s) ?ys = filter (\<lambda>r. estimatedTime r = s) routes)"
    if nonan: "\<forall>r\<in>set routes. ?key r \<noteq> NaN"
  proof -
    note props = js_sort_by_key_props [of routes ?key, OF nonan, folded eq]
    have "filter (\<lambda>r. estimatedTime r = s) ?ys = filter (\<lambda>r. estimatedTime r = s) routes" for s
    proof -
      have split: "filter (\<lambda>r. estimatedTime r = s) zs
                     = filter (\<lambda>r. estimatedTime r = s) (filter (\<lambda>r. ?key r = parseTimeString s) zs)"
        for zs :: "RouteOption list"
        by (induction zs) auto
      show ?thesis
        by (subst split, subst props(3), subst split [symmetric]) (rule refl)
    qed
    with props(1,2) show ?thesis by (intro conjI allI)
  qed
  have formatted:
    "sorted_wrt (\<lambda>a b. js_le (?shown a) (?shown b)) ?ys
     \<and> mset ?ys = mset routes
     \<and> (\<forall>k. filter (\<lambda>r. ?shown r = k) ?ys = filter (\<lambda>r. ?shown r = k) routes)"
    if fmt: "\<forall>r\<in>set routes. estimatedTime r = formatETA (eta_of r)"
  proof -
    have key: "?key r = ?shown r" if "r \<in> set routes" for r
      using fmt that by (simp add: parseTimeString_shown)
    have nonan: "\<forall>r\<in>set routes. ?key r \<noteq> NaN"
      using key by (simp add: shown_seconds_not_NaN)
    note props = js_sort_by_key_props [of routes ?key, OF nonan, folded eq]
    have s: "set ?ys = set routes"
      using props(2) by (rule mset_eq_setD)
    have srt: "sorted_wrt (\<lambda>a b. js_le (?shown a) (?shown b)) ?ys"
    proof (rule sorted_wrt_mono_rel [OF _ props(1)])
      fix a b
      assume "a \<in> set ?ys" "b \<in> set ?ys" "js_le (?key a) (?key b)"
      then show "js_le (?shown a) (?shown b)"
        using s key by simp
    qed
    have flt: "filter (\<lambda>r. ?shown r = k) ?ys = filter (\<lambda>r. ?shown r = k) routes" for k
    proof -
      have "filter (\<lambda>r. ?shown r = k) ?ys = filter (\<lambda>r. ?key r = k) ?ys"
        by (rule filter_cong [OF refl]) (simp add: s key)
      also have "\<dots> = filter (\<lambda>r. ?key r = k) routes"
        by (rule props(3))
      also have "\<dots> = filter (\<lambda>r. ?shown r = k) routes"
        by (rule filter_cong [OF refl]) (simp add: key)
      finally show ?thesis .
    qed
    from srt props(2) flt show ?thesis by (intro conjI allI)
  qed
  have pair: "sortRoutesBySpeed [a, b] = [a, b] \<and> sortRoutesBySpeed [b, a] = [b, a]"
    if "estimatedTime a = formatETA m1 \<and> estimatedTime b = formatETA m2
        \<and> formatETA m1 = formatETA m2"
    using that same [of a b] same [of b a] by simp
  have p0: "(\<forall>r\<in>set routes. estimatedTime r = formatETA (eta_of r)) \<longrightarrow>
        sorted_wrt (\<lambda>a b. js_le (?shown a) (?shown b)) ?ys
        \<and> mset ?ys = mset routes
        \<and> (\<forall>k. filter (\<lambda>r. ?shown r = k) ?ys = filter (\<lambda>r. ?shown r = k) routes)"
    by (rule impI) (rule formatted)
  have p1: "(\<forall>r\<in>set routes. ?key r \<noteq> NaN) \<longrightarrow>
      sorted_wrt (\<lambda>a b. js_le (?key a) (?key b)) ?ys
      \<and> mset ?ys = mset routes
      \<and> (\<forall>s. filter (\<lambda>r. estimatedTime r = s) ?ys = filter (\<lambda>r. estimatedTime r = s) routes)"
    by (rule impI) (rule general)
  have p2: "estimatedTime a = formatETA m1 \<and> estimatedTime b = formatETA m2
        \<and> formatETA m1 = formatETA m2 \<longrightarrow>
        sortRoutesBySpeed [a, b] = [a, b] \<and> sortRoutesBySpeed [b, a] = [b, a]"
    by (rule impI) (rule pair)
  from parseTimeString_shown [of ms] p0 p1 p2 formatRoutes_times_parse [of allRoutes quotes]
  show ?thesis
    by (intro conjI)
qed


theorem sortRoutesBySpeed_by_parsed_string_witness:
  "parseTimeString (formatETA 1209600000) = Num 1209600
   \<and> parseTimeString (formatETA 89000) = Num 60
   \<and> parseTimeString (formatETA 61000) = Num 60
   \<and> parseTimeString (formatETA 3600000) = Num 3600
   \<and> sortRoutesBySpeed example_options
     = [example_option ''AutomaticCCTPRoute'' (Num 5) (formatETA 89000),
        example_option ''CCTPRoute'' (Num 0) (formatETA 61000),
        example_option ''AutomaticTokenBridgeRoute'' (Num 2) (formatETA 3600000),
        example_option ''TokenBridgeRoute'' (Num 0) (formatETA 1209600000)]
   \<and> sorted_wrt (\<lambda>a b. js_le (shown_seconds (example_eta a)) (shown_seconds (example_eta b)))
        (sortRoutesBySpeed example_options)
   \<and> mset (sortRoutesBySpeed example_options) = mset example_options
   \<and> sortRoutesBySpeed
        [example_option ''CCTPRoute'' (Num 0) (formatETA 61000),
         example_option ''AutomaticCCTPRoute'' (Num 5) (formatETA 89000)]
     = [example_option ''CCTPRoute'' (Num 0) (formatETA 61000),
        example_option ''AutomaticCCTPRoute'' (Num 5) (formatETA 89000)]"
proof -
  let ?a = "example_option ''TokenBridgeRoute'' (Num 0) (formatETA 1209600000)"
  let ?b = "example_option ''AutomaticCCTPRoute'' (Num 5) (formatETA 89000)"
  let ?c = "example_option ''CCTPRoute'' (Num 0) (formatETA 61000)"
  let ?d = "example_option ''AutomaticTokenBridgeRoute'' (Num 2) (formatETA 3600000)"
  note T = sortRoutesBySpeed_by_parsed_string
  have ka: "parseTimeString (formatETA 1209600000) = Num 1209600"
    using T [of 1209600000, THEN conjunct1] by (simp add: shown_seconds_def)
  have kb: "parseTimeString (formatETA 89000) = Num 60"
    using T [of 89000, THEN conjunct1] by (simp add: shown_seconds_def)
  have kc: "parseTimeString (formatETA 61000) = Num 60"
    using T [of 61000, THEN conjunct1] by (simp add: shown_seconds_def)
  have kd: "parseTimeString (formatETA 3600000) = Num 3600"
    using T [of 3600000, THEN conjunct1] by (simp add: shown_seconds_def)
  have et: "estimatedTime ?a = formatETA 1209600000" "estimatedTime ?b = formatETA 89000"
      "estimatedTime ?c = formatETA 61000" "estimatedTime ?d = formatETA 3600000"
    by (simp_all add: example_option_def)
  have run: "sortRoutesBySpeed example_options = [?b, ?c, ?d, ?a]"
    unfolding example_options_def sortRoutesBySpeed_def js_sort_def
    by (simp add: et ka kb kc kd)
  have fmt: "\<forall>r\<in>set example_options. estimatedTime r = formatETA (example_eta r)"
    by (simp add: example_options_def example_option_def example_eta_def)
  note ordered = T [of 0 example_options example_eta, THEN conjunct2, THEN conjunct1, THEN mp, OF fmt]
  have f: "formatETA 61000 = formatETA 89000"
    by (simp add: formatETA_def show_int_def show_nat_eval)
  have e: "estimatedTime ?c = formatETA 61000 \<and> estimatedTime ?b = formatETA 89000
           \<and> formatETA 61000 = formatETA 89000"
    using f et by simp
  note tie = T [of 0 "[]" example_eta ?c 61000 ?b 89000, THEN conjunct2, THEN conjunct2,
      THEN conjunct2, THEN conjunct1, THEN mp, OF e]
  show ?thesis
    using ka kb kc kd run ordered [THEN conjunct1] ordered [THEN conjunct2, THEN conjunct1]
      tie [THEN conjunct1]
    by (intro conjI)
qed

subsection \<open>The signer adapter\<close>

lemma completed_events_Nil [simp]: "completed_events [] hs = []" "completed_events txns [] = []"
  by (simp_all add: completed_events_def)

lemma completed_events_Cons [simp]:
  "completed_events (txn # txns) (h # hs) =
     WalletSendTransaction (request_of txn) # WaitForTransactionReceipt h # completed_events txns hs"
  by (simp add: completed_events_def)

text \<open>The three outcomes of one \<open>sendTransaction\<close>.\<close>

lemma sendTransaction_rejected:
  "wallet_sendTransaction w tr (to_request t) = Inl e \<Longrightarrow>
     sendTransaction w tr t = (Inl e, tr @ [WalletSendTransaction (to_request t)])"
  by (simp add: sendTransaction_def)

lemma sendTransaction_no_receipt:
  "wallet_sendTransaction w tr (to_request t) = Inr h \<Longrightarrow>
   waitForTransactionReceipt w (tr @ [WalletSendTransaction (to_request t)]) h = Inl e \<Longrightarrow>
     sendTransaction w tr t
       = (Inl e, tr @ [WalletSendTransaction (to_request t), WaitForTransactionReceipt h])"
  by (simp add: sendTransaction_def)

lemma sendTransaction_mined:
  "wallet_sendTransaction w tr (to_request t) = Inr h \<Longrightarrow>
   waitForTransactionReceipt w (tr @ [WalletSendTransaction (to_request t)]) h = Inr rc \<Longrightarrow>
     sendTransaction w tr t
       = (Inr \<lparr>hash = h, wait = rc\<rparr>,
          tr @ [WalletSendTransaction (to_request t), WaitForTransactionReceipt h])"
  by (simp add: sendTransaction_def)

lemma sendTransaction_cases:
  obtains
    (rejected) e where "wallet_sendTransaction w tr (to_request t) = Inl e"
      "sendTransaction w tr t = (Inl e, tr @ [WalletSendTransaction (to_request t)])"
  | (no_receipt) h e where "wallet_sendTransaction w tr (to_request t) = Inr h"
      "waitForTransactionReceipt w (tr @ [WalletSendTransaction (to_request t)]) h = Inl e"
      "sendTransaction w tr t
         = (Inl e, tr @ [WalletSendTransaction (to_request t), WaitForTransactionReceipt h])"
  | (mined) h rc where "wallet_sendTransaction w tr (to_request t) = Inr h"
      "waitForTransactionReceipt w (tr @ [WalletSendTransaction (to_request t)]) h = Inr rc"
      "sendTransaction w tr t
         = (Inr \<lparr>hash = h, wait = rc\<rparr>,
            tr @ [WalletSendTransaction (to_request t), WaitForTransactionReceipt h])"
proof (cases "wallet_sendTransaction w tr (to_request t)")
  case (Inl e)
  show ?thesis
    by (rule rejected [OF Inl sendTransaction_rejected [OF Inl]])
next
  case (Inr h)
  show ?thesis
  proof (cases "waitForTransactionReceipt w (tr @ [WalletSendTransaction (to_request t)]) h")
    case (Inl e)
    show ?thesis
      by (rule no_receipt [OF Inr Inl sendTransaction_no_receipt [OF Inr Inl]])
  next
    case r: (Inr rc)
    show ?thesis
      by (rule mined [OF Inr r sendTransaction_mined [OF Inr r]])
  qed
qed

lemma failed_at_first_rejected:
  "wallet_sendTransaction w tr (request_of txn) = Inl e \<Longrightarrow>
     failed_at w tr (txn # txns) 0 [] e (tr @ [WalletSendTransaction (request_of txn)])"
  by (simp add: failed_at_def)

lemma failed_at_first_no_receipt:
  "wallet_sendTransaction w tr (request_of txn) = Inr h \<Longrightarrow>
   waitForTransactionReceipt w (tr @ [WalletSendTransaction (request_of txn)]) h = Inl e \<Longrightarrow>
     failed_at w tr (txn # txns) 0 [] e
       (tr @ [WalletSendTransaction (request_of txn), WaitForTransactionReceipt h])"
  by (simp add: failed_at_def)

lemma failed_at_Cons:
  "failed_at w (tr @ [WalletSendTransaction (request_of txn), WaitForTransactionReceipt h])
     txns k hs e tr' \<Longrightarrow>
   failed_at w tr (txn # txns) (Suc k) (h # hs) e tr'"
  by (simp add: failed_at_def)

lemma signAndSend_loop_outcome:
  "loop_outcome (ethersSigner signer) tr txns txids (signAndSend_loop signer tr txns txids)"
proof (induction txns arbitrary: tr txids)
  case Nil
  show ?case by (simp add: loop_outcome_def)
next
  case (Cons txn txns)
  let ?w = "ethersSigner signer"
  let ?req = "WalletSendTransaction (request_of txn)"
  show ?case
  proof (cases rule: sendTransaction_cases [of ?w tr "transaction txn"])
    case (rejected e)
    then have "signAndSend_loop signer tr (txn # txns) txids = (Inl e, tr @ [?req])"
      by (simp add: request_of_def)
    moreover have "loop_outcome ?w tr (txn # txns) txids (Inl e, tr @ [?req])"
    proof -
      have "failed_at ?w tr (txn # txns) 0 [] e (tr @ [?req])"
        using rejected(1) by (intro failed_at_first_rejected) (simp add: request_of_def)
      then have "\<exists>k hs. k < length (txn # txns) \<and> length hs = k
                   \<and> accepted ?w tr (take k (txn # txns)) hs
                   \<and> failed_at ?w tr (txn # txns) k hs e (tr @ [?req])"
        by (intro exI [of _ 0] exI [of _ "[]"]) simp
      then show ?thesis
        unfolding loop_outcome_def by (simp only: prod.case sum.case)
    qed
    ultimately show ?thesis by simp
  next
    case (no_receipt h e)
    then have "signAndSend_loop signer tr (txn # txns) txids
                 = (Inl e, tr @ [?req, WaitForTransactionReceipt h])"
      by (simp add: request_of_def)
    moreover have "loop_outcome ?w tr (txn # txns) txids
                     (Inl e, tr @ [?req, WaitForTransactionReceipt h])"
    proof -
      have "failed_at ?w tr (txn # txns) 0 [] e (tr @ [?req, WaitForTransactionReceipt h])"
        using no_receipt(1,2) by (intro failed_at_first_no_receipt) (simp_all add: request_of_def)
      then have "\<exists>k hs. k < length (txn # txns) \<and> length hs = k
                   \<and> accepted ?w tr (take k (txn # txns)) hs
                   \<and> failed_at ?w tr (txn # txns) k hs e (tr @ [?req, WaitForTransactionReceipt h])"
        by (intro exI [of _ 0] exI [of _ "[]"]) simp
      then show ?thesis
        unfolding loop_outcome_def by (simp only: prod.case sum.case)
    qed
    ultimately show ?thesis by simp
  next
    case (mined h rc)
    let ?tr = "tr @ [?req, WaitForTransactionReceipt h]"
    have step: "signAndSend_loop signer tr (txn # txns) txids
                  = signAndSend_loop signer ?tr txns (txids @ [h])"
      using mined(3) by (simp add: request_of_def)
    obtain res tr' where out: "signAndSend_loop signer ?tr txns (txids @ [h]) = (res, tr')"
      by (cases "signAndSend_loop signer ?tr txns (txids @ [h])")
    have ih: "loop_outcome ?w ?tr txns (txids @ [h]) (res, tr')"
      using Cons.IH [of ?tr "txids @ [h]"] out by simp
    have "loop_outcome ?w tr (txn # txns) txids (res, tr')"
    proof (cases res)
      case (Inr ids)
      with ih obtain hs where hs: "ids = (txids @ [h]) @ hs" "length hs = length txns"
          "accepted ?w ?tr txns hs" "tr' = ?tr @ completed_events txns hs"
        by (auto simp: loop_outcome_def)
      have "accepted ?w tr (txn # txns) (h # hs)"
        using mined(1,2) hs(3) by (simp add: request_of_def)
      with hs have "\<exists>hs'. ids = txids @ hs' \<and> length hs' = length (txn # txns)
                   \<and> accepted ?w tr (txn # txns) hs'
                   \<and> tr' = tr @ completed_events (txn # txns) hs'"
        by (intro exI [of _ "h # hs"]) simp
      then show ?thesis
        unfolding loop_outcome_def Inr by (simp only: prod.case sum.case)
    next
      case (Inl e)
      with ih obtain k hs where k: "k < length txns" "length hs = k"
        and acc: "accepted ?w ?tr (take k txns) hs"
        and f: "failed_at ?w ?tr txns k hs e tr'"
        unfolding loop_outcome_def by (simp only: prod.case sum.case) blast
      have "failed_at ?w tr (txn # txns) (Suc k) (h # hs) e tr'"
        using f by (rule failed_at_Cons)
      moreover have "accepted ?w tr (take (Suc k) (txn # txns)) (h # hs)"
        using mined(1,2) acc by (simp add: request_of_def)
      ultimately have "\<exists>k' hs'. k' < length (txn # txns) \<and> length hs' = k'
                     \<and> accepted ?w tr (take k' (txn # txns)) hs'
                     \<and> failed_at ?w tr (txn # txns) k' hs' e tr'"
        using k by (intro exI [of _ "Suc k"] exI [of _ "h # hs"]) simp
      then show ?thesis
        unfolding loop_outcome_def Inl by (simp only: prod.case sum.case)
    qed
    with step out show ?thesis by simp
  qed
qed


lemma signAndSend_outcome:
  "loop_outcome (ethersSigner signer) tr txns [] (signAndSend signer tr txns)"
  unfolding signAndSend_def by (rule signAndSend_loop_outcome)

lemma filter_sign_completed [simp]: "filter is_sign_request (completed_events txns hs) = []"
proof (induction txns arbitrary: hs)
  case Nil
  show ?case by simp
next
  case (Cons txn txns)
  then show ?case by (cases hs) simp_all
qed

lemma sendTransaction_no_sign:
  "filter is_sign_request (snd (sendTransaction w tr t)) = filter is_sign_request tr"
  by (cases rule: sendTransaction_cases [of w tr t]) simp_all

lemma signAndSend_no_sign:
  "filter is_sign_request (snd (signAndSend signer tr txns)) = filter is_sign_request tr"
proof -
  obtain res tr' where out: "signAndSend signer tr txns = (res, tr')"
    by (cases "signAndSend signer tr txns")
  have lo: "loop_outcome (ethersSigner signer) tr txns [] (res, tr')"
    using signAndSend_outcome [of signer tr txns] out by simp
  have "filter is_sign_request tr' = filter is_sign_request tr"
  proof (cases res)
    case (Inr ids)
    with lo show ?thesis by (auto simp: loop_outcome_def)
  next
    case (Inl e)
    with lo show ?thesis by (auto simp: loop_outcome_def failed_at_def Let_def)
  qed
  with out show ?thesis by simp
qed

text \<open>
  C2. One call of \<open>signAndSend\<close> sends the transactions one after the other, in input
  order, waiting for each receipt before the next send. On success there is one
  identifier per transaction: the hash the wallet returned for it, in input order. On
  failure the error of the wallet (or of the wait) is the result, the first \<open>k\<close>
  transactions were all accepted, transaction \<open>k\<close> is the last one sent and nothing after
  it is sent. When the wallet declines the first of two transactions, that send is the
  only event: none of the two completed.
\<close>

theorem signAndSend_sequential:
  "(\<forall>txids tr'. signAndSend signer tr txns = (Inr txids, tr') \<longrightarrow>
      length txids = length txns
      \<and> accepted (ethersSigner signer) tr txns txids
      \<and> tr' = tr @ completed_events txns txids)
   \<and> (\<forall>e tr'. signAndSend signer tr txns = (Inl e, tr') \<longrightarrow>
        (\<exists>k hs. k < length txns \<and> length hs = k
           \<and> accepted (ethersSigner signer) tr (take k txns) hs
           \<and> failed_at (ethersSigner signer) tr txns k hs e tr'))
   \<and> (\<forall>e. wallet_sendTransaction (ethersSigner signer) tr (request_of t1) = Inl e \<longrightarrow>
        signAndSend signer tr [t1, t2] = (Inl e, tr @ [WalletSendTransaction (request_of t1)]))"
proof (intro conjI allI impI)
  fix txids tr'
  assume run: "signAndSend signer tr txns = (Inr txids, tr')"
  have "loop_outcome (ethersSigner signer) tr txns [] (Inr txids, tr')"
    using signAndSend_outcome [of signer tr txns] run by simp
  then obtain hs where hs: "txids = hs" "length hs = length txns"
      "accepted (ethersSigner signer) tr txns hs" "tr' = tr @ completed_events txns hs"
    by (auto simp: loop_outcome_def)
  from hs show "length txids = length txns" by simp
  from hs show "accepted (ethersSigner signer) tr txns txids" by simp
  from hs show "tr' = tr @ completed_events txns txids" by simp
next
  fix e tr'
  assume run: "signAndSend signer tr txns = (Inl e, tr')"
  have "loop_outcome (ethersSigner signer) tr txns [] (Inl e, tr')"
    using signAndSend_outcome [of signer tr txns] run by simp
  then show "\<exists>k hs. k < length txns \<and> length hs = k
           \<and> accepted (ethersSigner signer) tr (take k txns) hs
           \<and> failed_at (ethersSigner signer) tr txns k hs e tr'"
    unfolding loop_outcome_def by (simp only: prod.case sum.case)
next
  fix e
  assume "wallet_sendTransaction (ethersSigner signer) tr (request_of t1) = Inl e"
  then show "signAndSend signer tr [t1, t2] = (Inl e, tr @ [WalletSendTransaction (request_of t1)])"
    by (simp add: signAndSend_def sendTransaction_def request_of_def)
qed

theorem signAndSend_sequential_witness:
  "signAndSend (example_signer declining_wallet) [] [example_tx ''approve'', example_tx ''transfer'']
     = (Inl (Error ''User rejected the request.''),
        [WalletSendTransaction (request_of (example_tx ''approve''))])
   \<and> signAndSend (example_signer accepting_wallet) [] [example_tx ''approve'', example_tx ''transfer'']
     = (Inr [''0xapprove'', ''0xtransfer''],
        [WalletSendTransaction (request_of (example_tx ''approve'')),
         WaitForTransactionReceipt ''0xapprove'',
         WalletSendTransaction (request_of (example_tx ''transfer'')),
         WaitForTransactionReceipt ''0xtransfer''])
   \<and> length [''0xapprove'', ''0xtransfer''] = length [example_tx ''approve'', example_tx ''transfer'']
   \<and> accepted accepting_wallet [] [example_tx ''approve'', example_tx ''transfer'']
        [''0xapprove'', ''0xtransfer'']"
proof -
  let ?a = "example_tx ''approve''" and ?t = "example_tx ''transfer''"
  note T = signAndSend_sequential [of "example_signer declining_wallet" "[]" "[?a, ?t]" ?a ?t]
  note U = signAndSend_sequential [of "example_signer accepting_wallet" "[]" "[?a, ?t]" ?a ?t]
  have declined: "wallet_sendTransaction (ethersSigner (example_signer declining_wallet)) []
                    (request_of ?a) = Inl (Error ''User rejected the request.'')"
    by (simp add: example_signer_def declining_wallet_def)
  have 1: "signAndSend (example_signer declining_wallet) [] [?a, ?t]
             = (Inl (Error ''User rejected the request.''), [] @ [WalletSendTransaction (request_of ?a)])"
    using T [THEN conjunct2, THEN conjunct2, THEN spec, THEN mp, OF declined] .
  have run: "signAndSend (example_signer accepting_wallet) [] [?a, ?t]
             = (Inr [''0xapprove'', ''0xtransfer''],
                [WalletSendTransaction (request_of ?a), WaitForTransactionReceipt ''0xapprove'',
                 WalletSendTransaction (request_of ?t), WaitForTransactionReceipt ''0xtransfer''])"
    by (simp add: signAndSend_def sendTransaction_def request_of_def example_signer_def
          accepting_wallet_def example_tx_def to_request_def)
  have 2: "length [''0xapprove'', ''0xtransfer''] = length [?a, ?t]
           \<and> accepted (ethersSigner (example_signer accepting_wallet)) [] [?a, ?t]
                [''0xapprove'', ''0xtransfer'']
           \<and> [WalletSendTransaction (request_of ?a), WaitForTransactionReceipt ''0xapprove'',
                 WalletSendTransaction (request_of ?t), WaitForTransactionReceipt ''0xtransfer'']
              = [] @ completed_events [?a, ?t] [''0xapprove'', ''0xtransfer'']"
    using U [THEN conjunct1, THEN spec, THEN spec, THEN mp, OF run] .
  have w: "ethersSigner (example_signer accepting_wallet) = accepting_wallet"
    by (simp add: example_signer_def)
  show ?thesis
    using 1 [unfolded append_Nil] run 2 [unfolded w, THEN conjunct1]
      2 [unfolded w, THEN conjunct2, THEN conjunct1]
    by (intro conjI)
qed

text \<open>
  C5. \<open>signTransaction\<close> of the adapter throws for every transaction and returns no
  signature; it does not touch the wallet. Neither it nor \<open>sendTransaction\<close> nor
  \<open>signAndSend\<close> ever asks the wallet for a signature.
\<close>

theorem signTransaction_always_throws:
  "signTransaction w tr t
     = (Inl (Error ''signTransaction not supported - the SDK should use sendTransaction instead''), tr)
   \<and> (\<forall>signature. fst (signTransaction w tr t) \<noteq> Inr signature)
   \<and> filter is_sign_request (snd (sendTransaction w tr t)) = filter is_sign_request tr
   \<and> filter is_sign_request (snd (signAndSend signer tr txns)) = filter is_sign_request tr"
  by (simp add: signTransaction_def sendTransaction_no_sign signAndSend_no_sign)

subsection \<open>The transaction hash of a receipt\<close>

lemma initiateTransfer_approving:
  "initiateTransfer [] approving_route example_request (example_signer accepting_wallet) ''0xabc'' ''10''
     = (Inr (Some two_tx_receipt),
        [RouteValidate ''CCTPRoute'', RouteQuote ''CCTPRoute'', RouteInitiate ''CCTPRoute'',
         WalletSendTransaction (request_of (example_tx ''approve'')),
         WaitForTransactionReceipt ''0xapprove'',
         WalletSendTransaction (request_of (example_tx ''transfer'')),
         WaitForTransactionReceipt ''0xtransfer'',
         LogExtractedTxHash (Some ''0xapprove'')])"
  by (simp add: initiateTransfer_def approving_route_def example_route_def two_tx_receipt_def
        signAndSend_def sendTransaction_def request_of_def example_signer_def
        accepting_wallet_def example_tx_def to_request_def extractTxHash_def
        first_origin_txid_def js_or_def)

text \<open>
  C1. The code at a receipt with two origin transactions, an approval and then the
  transfer: \<open>initiateTransfer\<close> and \<open>handleConfirmTransfer\<close> of Bridge.tsx take the
  identifier of the first entry, the approval. The bridge component with route selection
  takes the last entry, the transfer, as its comment says it should.
\<close>

theorem extractTxHash_first_entry:
  "extractTxHash (Some two_tx_receipt) = Some ''0xapprove''
   \<and> handleConfirmTransfer_txHash (Some two_tx_receipt) = ''0xapprove''
   \<and> handleConfirmTransfer_routes_txHash (Some two_tx_receipt) = Some ''0xtransfer''
   \<and> snd (initiateTransfer [] approving_route example_request (example_signer accepting_wallet)
             ''0xabc'' ''10'')
      = [RouteValidate ''CCTPRoute'', RouteQuote ''CCTPRoute'', RouteInitiate ''CCTPRoute'',
         WalletSendTransaction (request_of (example_tx ''approve'')),
         WaitForTransactionReceipt ''0xapprove'',
         WalletSendTransaction (request_of (example_tx ''transfer'')),
         WaitForTransactionReceipt ''0xtransfer'',
         LogExtractedTxHash (Some ''0xapprove'')]"
  by (simp add: initiateTransfer_approving)
     (simp add: extractTxHash_def first_origin_txid_def js_or_def js_or_default_def
        handleConfirmTransfer_txHash_def handleConfirmTransfer_routes_txHash_def two_tx_receipt_def)


subsection \<open>initiateTransfer\<close>

lemma initiateTransfer_validate_throws:
  "validate route tr req \<lparr>tp_amount = amt, nativeGas = 0\<rparr> = Inl e \<Longrightarrow>
     initiateTransfer tr route req signer dest amt
       = (Inl e, tr @ [RouteValidate (constructor_name route)])"
  by (simp add: initiateTransfer_def)

lemma initiateTransfer_invalid:
  "validate route tr req \<lparr>tp_amount = amt, nativeGas = 0\<rparr> = Inr v \<Longrightarrow> \<not> valid v \<Longrightarrow>
     initiateTransfer tr route req signer dest amt
       = (Inl (Error (js_or_default (validation_error v) ''Transfer validation failed'')),
          tr @ [RouteValidate (constructor_name route)])"
  by (simp add: initiateTransfer_def)

lemma initiateTransfer_quote_throws:
  "validate route tr req \<lparr>tp_amount = amt, nativeGas = 0\<rparr> = Inr v \<Longrightarrow> valid v \<Longrightarrow>
   route_quote route (tr @ [RouteValidate (constructor_name route)]) req (params v) = Inl e \<Longrightarrow>
     initiateTransfer tr route req signer dest amt
       = (Inl e, tr @ [RouteValidate (constructor_name route), RouteQuote (constructor_name route)])"
  by (simp add: initiateTransfer_def)

lemma initiateTransfer_quote_failed:
  "validate route tr req \<lparr>tp_amount = amt, nativeGas = 0\<rparr> = Inr v \<Longrightarrow> valid v \<Longrightarrow>
   route_quote route (tr @ [RouteValidate (constructor_name route)]) req (params v) = Inr q \<Longrightarrow>
   \<not> success q \<Longrightarrow>
     initiateTransfer tr route req signer dest amt
       = (Inl (Error (js_or_default (quote_error q) ''Failed to get quote'')),
          tr @ [RouteValidate (constructor_name route), RouteQuote (constructor_name route)])"
  by (simp add: initiateTransfer_def)

lemma initiateTransfer_initiated:
  "validate route tr req \<lparr>tp_amount = amt, nativeGas = 0\<rparr> = Inr v \<Longrightarrow> valid v \<Longrightarrow>
   route_quote route (tr @ [RouteValidate (constructor_name route)]) req (params v) = Inr q \<Longrightarrow>
   success q \<Longrightarrow>
     \<exists>rest. snd (initiateTransfer tr route req signer dest amt)
       = tr @ RouteValidate (constructor_name route) # RouteQuote (constructor_name route)
              # RouteInitiate (constructor_name route) # rest"
  by (simp add: initiateTransfer_def Let_def split: prod.splits sum.splits)

text \<open>The five ways \<open>initiateTransfer\<close> can go.\<close>

lemma initiateTransfer_cases:
  fixes route :: "'rc route"
  defines "n \<equiv> constructor_name route"
  obtains
    (validate_throws) e where
      "validate route tr req \<lparr>tp_amount = amt, nativeGas = 0\<rparr> = Inl e"
  | (invalid) v where
      "validate route tr req \<lparr>tp_amount = amt, nativeGas = 0\<rparr> = Inr v" "\<not> valid v"
  | (quote_throws) v e where
      "validate route tr req \<lparr>tp_amount = amt, nativeGas = 0\<rparr> = Inr v" "valid v"
      "route_quote route (tr @ [RouteValidate n]) req (params v) = Inl e"
  | (quote_failed) v q where
      "validate route tr req \<lparr>tp_amount = amt, nativeGas = 0\<rparr> = Inr v" "valid v"
      "route_quote route (tr @ [RouteValidate n]) req (params v) = Inr q" "\<not> success q"
  | (initiated) v q where
      "validate route tr req \<lparr>tp_amount = amt, nativeGas = 0\<rparr> = Inr v" "valid v"
      "route_quote route (tr @ [RouteValidate n]) req (params v) = Inr q" "success q"
proof (cases "validate route tr req \<lparr>tp_amount = amt, nativeGas = 0\<rparr>")
  case (Inl e)
  then show ?thesis by (rule validate_throws)
next
  case v: (Inr v)
  show ?thesis
  proof (cases "valid v")
    case False
    with v show ?thesis by (rule invalid)
  next
    case True
    show ?thesis
    proof (cases "route_quote route (tr @ [RouteValidate n]) req (params v)")
      case (Inl e)
      with v True show ?thesis by (rule quote_throws)
    next
      case q: (Inr q)
      show ?thesis
      proof (cases "success q")
        case False
        with v True q show ?thesis by (rule quote_failed)
      next
        case s: True
        with v True q show ?thesis by (rule initiated)
      qed
    qed
  qed
qed

text \<open>
  C6 (as the code has it). \<open>initiateTransfer\<close> calls \<open>route.validate\<close>, then \<open>route.quote\<close>,
  then \<open>route.initiate\<close>, and nothing else before them. An invalid validation result ends
  it after the validation with a plain \<open>Error\<close> whose message is the validation reason
  (\<open>Transfer validation failed\<close> when there is none); an unsuccessful quote ends it after
  the quote with a plain \<open>Error\<close> whose message is the quote's error (\<open>Failed to get quote\<close>
  when there is none). In both cases \<open>route.initiate\<close> is not called and the wallet is not
  touched; \<open>route.initiate\<close> is called only after a valid validation and a successful quote.
\<close>

theorem initiateTransfer_validate_quote_initiate:
  fixes route :: "'rc route"
  shows
  "(\<forall>v. validate route tr req \<lparr>tp_amount = amt, nativeGas = 0\<rparr> = Inr v \<and> \<not> valid v \<longrightarrow>
      initiateTransfer tr route req signer dest amt
        = (Inl (Error (js_or_default (validation_error v) ''Transfer validation failed'')),
           tr @ [RouteValidate (constructor_name route)]))
   \<and> (\<forall>v q. validate route tr req \<lparr>tp_amount = amt, nativeGas = 0\<rparr> = Inr v \<and> valid v
          \<and> route_quote route (tr @ [RouteValidate (constructor_name route)]) req (params v) = Inr q
          \<and> \<not> success q \<longrightarrow>
      initiateTransfer tr route req signer dest amt
        = (Inl (Error (js_or_default (quote_error q) ''Failed to get quote'')),
           tr @ [RouteValidate (constructor_name route), RouteQuote (constructor_name route)]))
   \<and> (\<exists>evs. snd (initiateTransfer tr route req signer dest amt) = tr @ evs
          \<and> (evs = [RouteValidate (constructor_name route)]
               \<or> evs = [RouteValidate (constructor_name route), RouteQuote (constructor_name route)]
               \<or> (\<exists>v q rest.
                     validate route tr req \<lparr>tp_amount = amt, nativeGas = 0\<rparr> = Inr v \<and> valid v
                     \<and> route_quote route (tr @ [RouteValidate (constructor_name route)]) req (params v)
                         = Inr q
                     \<and> success q
                     \<and> evs = RouteValidate (constructor_name route) # RouteQuote (constructor_name route)
                             # RouteInitiate (constructor_name route) # rest)))"
proof (intro conjI allI impI)
  fix v
  assume "validate route tr req \<lparr>tp_amount = amt, nativeGas = 0\<rparr> = Inr v \<and> \<not> valid v"
  then show "initiateTransfer tr route req signer dest amt
        = (Inl (Error (js_or_default (validation_error v) ''Transfer validation failed'')),
           tr @ [RouteValidate (constructor_name route)])"
    by (simp add: initiateTransfer_invalid)
next
  fix v q
  assume "validate route tr req \<lparr>tp_amount = amt, nativeGas = 0\<rparr> = Inr v \<and> valid v
          \<and> route_quote route (tr @ [RouteValidate (constructor_name route)]) req (params v) = Inr q
          \<and> \<not> success q"
  then show "initiateTransfer tr route req signer dest amt
        = (Inl (Error (js_or_default (quote_error q) ''Failed to get quote'')),
           tr @ [RouteValidate (constructor_name route), RouteQuote (constructor_name route)])"
    by (simp add: initiateTransfer_quote_failed)
next
  let ?n = "constructor_name route"
  let ?out = "snd (initiateTransfer tr route req signer dest amt)"
  let ?P = "\<lambda>evs. ?out = tr @ evs
          \<and> (evs = [RouteValidate ?n]
               \<or> evs = [RouteValidate ?n, RouteQuote ?n]
               \<or> (\<exists>v q rest.
                     validate route tr req \<lparr>tp_amount = amt, nativeGas = 0\<rparr> = Inr v \<and> valid v
                     \<and> route_quote route (tr @ [RouteValidate ?n]) req (params v) = Inr q
                     \<and> success q
                     \<and> evs = RouteValidate ?n # RouteQuote ?n # RouteInitiate ?n # rest))"
  show "\<exists>evs. ?P evs"
  proof (cases rule: initiateTransfer_cases [of route tr req amt])
    case (validate_throws e)
    have o: "?out = tr @ [RouteValidate ?n]"
      using validate_throws by (simp add: initiateTransfer_validate_throws)
    have "?P [RouteValidate ?n]"
      by (rule conjI [OF o disjI1 [OF refl]])
    then show ?thesis
      by (rule exI [of ?P "[RouteValidate ?n]"])
  next
    case (invalid v)
    have o: "?out = tr @ [RouteValidate ?n]"
      using invalid by (simp add: initiateTransfer_invalid)
    have "?P [RouteValidate ?n]"
      by (rule conjI [OF o disjI1 [OF refl]])
    then show ?thesis
      by (rule exI [of ?P "[RouteValidate ?n]"])
  next
    case (quote_throws v e)
    have o: "?out = tr @ [RouteValidate ?n, RouteQuote ?n]"
      using quote_throws by (simp add: initiateTransfer_quote_throws)
    have "?P [RouteValidate ?n, RouteQuote ?n]"
      by (rule conjI [OF o disjI2 [OF disjI1 [OF refl]]])
    then show ?thesis
      by (rule exI [of ?P "[RouteValidate ?n, RouteQuote ?n]"])
  next
    case (quote_failed v q)
    have o: "?out = tr @ [RouteValidate ?n, RouteQuote ?n]"
      using quote_failed by (simp add: initiateTransfer_quote_failed)
    have "?P [RouteValidate ?n, RouteQuote ?n]"
      by (rule conjI [OF o disjI2 [OF disjI1 [OF refl]]])
    then show ?thesis
      by (rule exI [of ?P "[RouteValidate ?n, RouteQuote ?n]"])
  next
    case (initiated v q)
    from initiateTransfer_initiated [OF this, of signer dest] obtain rest
      where o: "?out = tr @ RouteValidate ?n # RouteQuote ?n # RouteInitiate ?n # rest"
      by (elim exE)
    have "\<exists>v q rest'.
            validate route tr req \<lparr>tp_amount = amt, nativeGas = 0\<rparr> = Inr v \<and> valid v
            \<and> route_quote route (tr @ [RouteValidate ?n]) req (params v) = Inr q
            \<and> success q
            \<and> RouteValidate ?n # RouteQuote ?n # RouteInitiate ?n # rest
                = RouteValidate ?n # RouteQuote ?n # RouteInitiate ?n # rest'"
      by (intro exI [of _ v] exI [of _ q] exI [of _ rest] conjI initiated refl)
    then have "?P (RouteValidate ?n # RouteQuote ?n # RouteInitiate ?n # rest)"
      by (intro conjI [OF o] disjI2)
    then show ?thesis
      by (rule exI [of ?P "RouteValidate ?n # RouteQuote ?n # RouteInitiate ?n # rest"])
  qed
qed


theorem initiateTransfer_validate_quote_initiate_witness:
  "initiateTransfer [] rejecting_route example_request (example_signer accepting_wallet) ''0xabc'' ''10''
     = (Inl (Error ''Amount too small''), [RouteValidate ''CCTPRoute''])
   \<and> initiateTransfer [] unquotable_route example_request (example_signer accepting_wallet) ''0xabc'' ''10''
     = (Inl (Error ''Relayer offline''), [RouteValidate ''CCTPRoute'', RouteQuote ''CCTPRoute''])"
proof -
  let ?ps = "\<lparr>tp_amount = ''10'', nativeGas = 0\<rparr>"
  let ?v = "\<lparr>valid = False, params = ?ps, validation_error = Some ''Amount too small''\<rparr>"
  let ?v' = "\<lparr>valid = True, params = ?ps, validation_error = None\<rparr>"
  let ?q = "\<lparr>success = False, quote_error = Some ''Relayer offline'', relayFee = None, eta = None,
             destinationChain = ''Base''\<rparr>"
  note T = initiateTransfer_validate_quote_initiate
  have a: "validate rejecting_route [] example_request ?ps = Inr ?v \<and> \<not> valid ?v"
    by (simp add: rejecting_route_def example_route_def)
  have b: "validate unquotable_route [] example_request ?ps = Inr ?v' \<and> valid ?v'
           \<and> route_quote unquotable_route ([] @ [RouteValidate (constructor_name unquotable_route)])
                 example_request (params ?v') = Inr ?q
           \<and> \<not> success ?q"
    by (simp add: unquotable_route_def example_route_def)
  have 1: "initiateTransfer [] rejecting_route example_request (example_signer accepting_wallet)
             ''0xabc'' ''10''
           = (Inl (Error (js_or_default (validation_error ?v) ''Transfer validation failed'')),
              [] @ [RouteValidate (constructor_name rejecting_route)])"
    using T [of rejecting_route "[]" example_request "''10''", THEN conjunct1, THEN spec, THEN mp, OF a] .
  have 2: "initiateTransfer [] unquotable_route example_request (example_signer accepting_wallet)
             ''0xabc'' ''10''
           = (Inl (Error (js_or_default (quote_error ?q) ''Failed to get quote'')),
              [] @ [RouteValidate (constructor_name unquotable_route),
                    RouteQuote (constructor_name unquotable_route)])"
    using T [of unquotable_route "[]" example_request "''10''", THEN conjunct2, THEN conjunct1,
        THEN spec, THEN spec, THEN mp, OF b] .
  have n: "constructor_name rejecting_route = ''CCTPRoute''"
      "constructor_name unquotable_route = ''CCTPRoute''"
    by (simp_all add: rejecting_route_def unquotable_route_def example_route_def)
  have m: "js_or_default (validation_error ?v) ''Transfer validation failed'' = ''Amount too small''"
      "js_or_default (quote_error ?q) ''Failed to get quote'' = ''Relayer offline''"
    by (simp_all add: js_or_default_def)
  show ?thesis
    using 1 [unfolded n m append_Nil] 2 [unfolded n m append_Nil] by (rule conjI)
qed

text \<open>
  The errors of the two failures are plain \<open>Error\<close> values, not the \<open>TransferFailedError\<close>
  and \<open>QuoteFailedError\<close> of \<open>errors.ts\<close>, which have another name, a code and a prefixed
  message.
\<close>

theorem initiateTransfer_error_class_counterexample:
  "fst (initiateTransfer [] rejecting_route example_request (example_signer accepting_wallet)
          ''0xabc'' ''10'')
     = Inl \<lparr>err_name = ''Error'', message = ''Amount too small'', code = None\<rparr>
   \<and> fst (initiateTransfer [] rejecting_route example_request (example_signer accepting_wallet)
          ''0xabc'' ''10'')
     \<noteq> Inl (TransferFailedError ''Amount too small'')
   \<and> fst (initiateTransfer [] unquotable_route example_request (example_signer accepting_wallet)
          ''0xabc'' ''10'')
     = Inl \<lparr>err_name = ''Error'', message = ''Relayer offline'', code = None\<rparr>
   \<and> fst (initiateTransfer [] unquotable_route example_request (example_signer accepting_wallet)
          ''0xabc'' ''10'')
     \<noteq> Inl (QuoteFailedError ''Relayer offline'')"
  by (simp add: initiateTransfer_def rejecting_route_def unquotable_route_def example_route_def
        js_or_default_def Error_def TransferFailedError_def QuoteFailedError_def)

subsection \<open>getTransferQuote\<close>

lemma filter_route_call_append_Nil:
  "filter is_route_call evs = [] \<Longrightarrow> filter is_route_call (tr @ evs) = filter is_route_call tr"
  by simp

lemma call_filter:
  assumes "filter P evs = []"
    and "\<And>tr' x. filter P (snd (continue tr' x)) = filter P tr'"
  shows "filter P (snd (call tr evs result continue)) = filter P tr"
  using assms by (cases result) (simp_all add: call_def)

lemma getTransferQuote_no_route_call:
  "filter is_route_call (snd (getTransferQuote sdk tr ps)) = filter is_route_call tr"
  unfolding getTransferQuote_def Let_def
  by (intro call_filter) (simp_all split: option.split list.split add: call_filter)

text \<open>
  C8 (as the code has it). When the protocol reports no destination token for the source
  token and the pair of chains (an empty list, or none), \<open>getTransferQuote\<close> fails with a
  plain \<open>Error\<close> whose message is \<open>No supported destination tokens found\<close>, right after
  that query: no address is parsed, no transfer request is created, no route is
  searched. And \<open>getTransferQuote\<close> never calls a route's \<open>validate\<close>, \<open>quote\<close> or \<open>initiate\<close>.
\<close>

theorem getTransferQuote_no_destination_tokens:
  "(initWormhole sdk tr = Inr wh
    \<and> getChain sdk (sourceChain ps) = Inr srcChain
    \<and> getChain sdk (destChain ps) = Inr dstChain
    \<and> tok = (if tokenAddress ps = ''0xEeeeeEeeeEeEeeEeEeEeeEEEeeeeEeeeeeeeEEeE'' then ''native''
              else tokenAddress ps)
    \<and> tokenId sdk (chain srcChain) tok = Inr tid
    \<and> before = tr @ [InitWormhole, CreateResolver resolver_routes, GetChain (sourceChain ps),
                      GetChain (destChain ps), TokenId (chain srcChain) tok]
    \<and> (supportedDestinationTokens sdk before tid srcChain dstChain = Inr (Some [])
         \<or> supportedDestinationTokens sdk before tid srcChain dstChain = Inr None)
    \<longrightarrow> getTransferQuote sdk tr ps
          = (Inl (Error ''No supported destination tokens found''),
             before @ [SupportedDestinationTokens]))
   \<and> filter is_route_call (snd (getTransferQuote sdk tr ps)) = filter is_route_call tr"
proof (intro conjI impI)
  show "filter is_route_call (snd (getTransferQuote sdk tr ps)) = filter is_route_call tr"
    by (rule getTransferQuote_no_route_call)
next
  assume a: "initWormhole sdk tr = Inr wh
    \<and> getChain sdk (sourceChain ps) = Inr srcChain
    \<and> getChain sdk (destChain ps) = Inr dstChain
    \<and> tok = (if tokenAddress ps = ''0xEeeeeEeeeEeEeeEeEeEeeEEEeeeeEeeeeeeeEEeE'' then ''native''
              else tokenAddress ps)
    \<and> tokenId sdk (chain srcChain) tok = Inr tid
    \<and> before = tr @ [InitWormhole, CreateResolver resolver_routes, GetChain (sourceChain ps),
                      GetChain (destChain ps), TokenId (chain srcChain) tok]
    \<and> (supportedDestinationTokens sdk before tid srcChain dstChain = Inr (Some [])
         \<or> supportedDestinationTokens sdk before tid srcChain dstChain = Inr None)"
  then show "getTransferQuote sdk tr ps
          = (Inl (Error ''No supported destination tokens found''),
             before @ [SupportedDestinationTokens])"
    by (auto simp: getTransferQuote_def Let_def call_def)
qed

theorem getTransferQuote_no_destination_tokens_witness:
  "getTransferQuote no_destination_sdk [] example_params
     = (Inl (Error ''No supported destination tokens found''),
        [InitWormhole, CreateResolver resolver_routes, GetChain ''Ethereum'', GetChain ''Base'',
         TokenId ''Ethereum'' ''0xa0b8'', SupportedDestinationTokens])"
proof -
  let ?before = "[] @ [InitWormhole, CreateResolver resolver_routes, GetChain (sourceChain example_params),
                      GetChain (destChain example_params), TokenId (chain \<lparr>chain = ''Ethereum''\<rparr>) ''0xa0b8'']"
  have a: "initWormhole no_destination_sdk [] = Inr ()
    \<and> getChain no_destination_sdk (sourceChain example_params) = Inr \<lparr>chain = ''Ethereum''\<rparr>
    \<and> getChain no_destination_sdk (destChain example_params) = Inr \<lparr>chain = ''Base''\<rparr>
    \<and> ''0xa0b8'' = (if tokenAddress example_params = ''0xEeeeeEeeeEeEeeEeEeEeeEEEeeeeEeeeeeeeEEeE''
                     then ''native'' else tokenAddress example_params)
    \<and> tokenId no_destination_sdk (chain \<lparr>chain = ''Ethereum''\<rparr>) ''0xa0b8''
        = Inr \<lparr>token_chain = ''Ethereum'', token_address = ''0xa0b8''\<rparr>
    \<and> ?before = ?before
    \<and> (supportedDestinationTokens no_destination_sdk ?before
           \<lparr>token_chain = ''Ethereum'', token_address = ''0xa0b8''\<rparr>
           \<lparr>chain = ''Ethereum''\<rparr> \<lparr>chain = ''Base''\<rparr> = Inr (Some [])
         \<or> supportedDestinationTokens no_destination_sdk ?before
           \<lparr>token_chain = ''Ethereum'', token_address = ''0xa0b8''\<rparr>
           \<lparr>chain = ''Ethereum''\<rparr> \<lparr>chain = ''Base''\<rparr> = Inr None)"
    by (simp add: no_destination_sdk_def example_params_def)
  have "getTransferQuote no_destination_sdk [] example_params
          = (Inl (Error ''No supported destination tokens found''),
             ?before @ [SupportedDestinationTokens])"
    using getTransferQuote_no_destination_tokens [THEN conjunct1, THEN mp, OF a] .
  then show ?thesis
    by (simp add: example_params_def)
qed

text \<open>
  The error is a plain \<open>Error\<close>: no error named \<open>NoDestinationTokenError\<close> is thrown.
\<close>

theorem getTransferQuote_error_class_counterexample:
  "fst (getTransferQuote no_destination_sdk [] example_params)
     = Inl \<lparr>err_name = ''Error'', message = ''No supported destination tokens found'', code = None\<rparr>
   \<and> (case fst (getTransferQuote no_destination_sdk [] example_params) of
         Inl e \<Rightarrow> err_name e \<noteq> ''NoDestinationTokenError''
       | Inr r \<Rightarrow> False)"
  by (simp add: getTransferQuote_def call_def no_destination_sdk_def example_params_def Error_def)

end
